theory Spec2Isabelle
  imports Complex_Main "HOL-Library.Multiset"
begin

section \<open>Conventions of the embedding\<close>

text \<open>
  The program is \<^verbatim>\<open>src/ha_outliers.py\<close>. Its functions are embedded one by one, under
  their own names.

  \<^item> A Python \<^verbatim>\<open>float\<close> is the \<^typ>\<open>real\<close> that it denotes, and a \<^verbatim>\<open>Decimal\<close> that the
    database returns is the \<^typ>\<open>real\<close> that it denotes. The conversion \<^verbatim>\<open>float(d)\<close> and
    the arithmetic of the scan on floats (\<^verbatim>\<open>-\<close>, \<^verbatim>\<open>+\<close>, \<^verbatim>\<open>*\<close>, \<^verbatim>\<open>/\<close>) round their exact
    result to binary64: the function \<open>fl\<close> below. Comparisons, \<^verbatim>\<open>abs\<close>, \<^verbatim>\<open>min\<close> and \<^verbatim>\<open>max\<close>
    are exact on floats. The threshold of the frequency filter and the bands of the
    grouping are computed on the numbers themselves, as said there. Infinities, NaN and
    subnormal numbers are not part of the model.
    A Python \<^verbatim>\<open>int\<close> is an \<^typ>\<open>int\<close>; a list index or a database key that cannot be
    negative is a \<^typ>\<open>nat\<close>.
  \<^item> A dictionary with a fixed set of keys is a record. The keys \<^verbatim>\<open>id\<close>, \<^verbatim>\<open>value\<close>,
    \<^verbatim>\<open>count\<close>, \<^verbatim>\<open>values\<close> and \<^verbatim>\<open>_removed\<close> are the fields \<open>rec_id\<close>, \<open>rec_value\<close>,
    \<open>member_count\<close>, \<open>member_values\<close> and \<open>removed\<close>.
  \<^item> An exception that leaves a function is the \<open>Inl\<close> branch of a sum type.
  \<^item> What the database server and the terminal compute is an input of the model: the rows
    a query returns, the outcome of each call on the connection, the operator's replies.
\<close>

datatype mysql_error = OperationalError | OtherDatabaseError

datatype py_error = TypeError | ZeroDivisionError | IndexError | EOFError | MysqlError mysql_error

definition SIGMA_THRESHOLD :: real where
  "SIGMA_THRESHOLD = 5"

definition MIN_SAMPLES :: int where
  "MIN_SAMPLES = 200"

definition FREQUENCY_THRESHOLD :: real where
  "FREQUENCY_THRESHOLD = 1 / 100"

definition PAGE_SIZE :: int where
  "PAGE_SIZE = 25"

text \<open>
  \<^verbatim>\<open>sorted(xs, key=k, reverse=True)\<close>: a stable sort, descending by the key (elements with
  equal keys keep their order).
\<close>

definition sorted_desc :: "('a \<Rightarrow> real) \<Rightarrow> 'a list \<Rightarrow> 'a list" where
  "sorted_desc k xs = sort_key (\<lambda>x. - k x) xs"

subsection \<open>Rounding to binary64\<close>

text \<open>
  A binary64 number other than zero is \<open>m * 2 ^ (e - 52)\<close> with an integer \<open>m\<close>,
  \<open>2 ^ 52 \<le> |m| < 2 ^ 53\<close>. \<open>bits n\<close> is the number of binary digits of \<open>n\<close>; \<open>binade x\<close> is
  the exponent \<open>e\<close> with \<open>2 ^ e \<le> |x| < 2 ^ (e + 1)\<close>; \<open>fl x\<close> is the multiple of
  \<open>2 ^ (e - 52)\<close> nearest to \<open>x\<close>, the one with an even \<open>m\<close> when two are equally near
  (IEEE 754 \<^verbatim>\<open>roundTiesToEven\<close>, the rounding of Python's float operations). The exponent
  is not bounded: a result beyond the range of binary64 (an overflow, a subnormal number)
  is outside the model.
\<close>

fun bits :: "nat \<Rightarrow> nat" where
  "bits n = (if n = 0 then 0 else Suc (bits (n div 2)))"

declare bits.simps [simp del]

definition pow2 :: "int \<Rightarrow> real" where
  "pow2 e = (if 0 \<le> e then 2 ^ nat e else 1 / 2 ^ nat (- e))"

definition binade :: "real \<Rightarrow> int" where
  "binade x =
     (if 1 \<le> \<bar>x\<bar> then int (bits (nat \<lfloor>\<bar>x\<bar>\<rfloor>)) - 1
      else - int (bits (nat (\<lceil>1 / \<bar>x\<bar>\<rceil> - 1))))"

definition round_half_even :: "real \<Rightarrow> int" where
  "round_half_even y =
     (if y - of_int \<lfloor>y\<rfloor> < 1 / 2 then \<lfloor>y\<rfloor>
      else if 1 / 2 < y - of_int \<lfloor>y\<rfloor> then \<lfloor>y\<rfloor> + 1
      else if even \<lfloor>y\<rfloor> then \<lfloor>y\<rfloor> else \<lfloor>y\<rfloor> + 1)"

definition fl :: "real \<Rightarrow> real" where
  "fl x =
     (if x = 0 then 0
      else of_int (round_half_even (x / pow2 (binade x - 52))) * pow2 (binade x - 52))"

section \<open>The scan: \<^verbatim>\<open>find_outliers_in_states\<close>\<close>

text \<open>
  The three queries of the scan, as the cursor returns them.
  \<^item> \<open>states_meta\<close>: the rows of the candidate query; \<open>recent_state\<close> is the value of
    \<^verbatim>\<open>float(c["recent_state"])\<close>, \<open>None\<close> where that raises \<^verbatim>\<open>ValueError\<close> or
    \<^verbatim>\<open>TypeError\<close>.
  \<^item> \<open>stats_of m\<close>: the row of the statistics query for \<^verbatim>\<open>metadata_id = m\<close>
    (\<^verbatim>\<open>COUNT(*)\<close>, \<^verbatim>\<open>AVG\<close>, \<^verbatim>\<open>STDDEV\<close>; \<open>None\<close> in a field is SQL \<^verbatim>\<open>NULL\<close>).
  \<^item> \<open>valid_states m\<close>: the rows of \<^verbatim>\<open>states\<close> with \<^verbatim>\<open>metadata_id = m\<close> that satisfy
    \<^verbatim>\<open>VALID_STATE_CONDITION\<close>, with \<open>numeric_value\<close> the value of
    \<^verbatim>\<open>CAST(state AS DECIMAL(30,10))\<close>, a decimal number. The third query keeps the rows
    of it that lie outside the bounds.
  The statistics are what the server returns, before \<^verbatim>\<open>float\<close> is applied to them.
\<close>

record candidate =
  cand_metadata_id :: nat
  cand_entity_id :: string
  recent_state :: "real option"

record stats_row =
  cnt :: int
  mean_val :: "real option"
  std_val :: "real option"

record state_row =
  state_id :: nat
  numeric_value :: real
  last_updated_ts :: "real option"

record database =
  states_meta :: "candidate list"
  stats_of :: "nat \<Rightarrow> stats_row option"
  valid_states :: "nat \<Rightarrow> state_row list"

record outlier =
  rec_id :: nat
  metadata_id :: nat
  entity_id :: string
  rec_value :: real
  lower_bound :: real
  upper_bound :: real
  mean :: real
  deviation :: real
  timestamp :: "real option"
  total_samples :: int

text \<open>
  \<^verbatim>\<open>Counter(f"{float(r['numeric_value']):.6g}" for r in outlier_rows)\<close>, looked up at a key.
  The formatting \<^verbatim>\<open>f"{v:.6g}"\<close> (six significant digits) is Python's; it is the parameter
  \<open>fmt\<close> of the scan, so that every theorem holds for whichever function it is. \<open>fmt\<close>
  takes the decimal of the row: it stands for \<^verbatim>\<open>float\<close> followed by the formatting.
\<close>

definition value_counts :: "(real \<Rightarrow> string) \<Rightarrow> state_row list \<Rightarrow> string \<Rightarrow> nat" where
  "value_counts fmt outlier_rows k = count_list (map (\<lambda>r. fmt (numeric_value r)) outlier_rows) k"

text \<open>
  The dictionary appended to \<^verbatim>\<open>all_outliers\<close> for one row, from the floats \<open>mean_v\<close>,
  \<open>std_v\<close>, \<open>lower\<close> and \<open>upper\<close> of the source: \<^verbatim>\<open>value = float(row["numeric_value"])\<close>, and
  \<^verbatim>\<open>abs(value - mean_val) / std_val\<close> rounds after the subtraction and after the division.
\<close>

definition make_outlier ::
  "nat \<Rightarrow> string \<Rightarrow> int \<Rightarrow> real \<Rightarrow> real \<Rightarrow> real \<Rightarrow> real \<Rightarrow> state_row \<Rightarrow> outlier" where
  "make_outlier meta_id ent tot mean_v std_v lower upper row =
     (let v = fl (numeric_value row) in
      \<lparr>rec_id = state_id row,
       metadata_id = meta_id,
       entity_id = ent,
       rec_value = v,
       lower_bound = lower,
       upper_bound = upper,
       mean = mean_v,
       deviation = fl (\<bar>fl (v - mean_v)\<bar> / std_v),
       timestamp = last_updated_ts row,
       total_samples = tot\<rparr>)"

text \<open>
  The loop \<^verbatim>\<open>for row in outlier_rows\<close>: a row whose formatted value occurs more than
  \<^verbatim>\<open>total_samples * FREQUENCY_THRESHOLD\<close> times is skipped, any other is appended. The
  product is modelled exactly, as a hundredth of the total; at the total 1000 of the
  examples the binary64 product is the same number, 10.
\<close>

fun row_loop ::
  "(real \<Rightarrow> string) \<Rightarrow> (string \<Rightarrow> nat) \<Rightarrow> int \<Rightarrow> (state_row \<Rightarrow> outlier) \<Rightarrow>
   state_row list \<Rightarrow> outlier list \<Rightarrow> outlier list" where
  "row_loop fmt counts tot mk [] all_outliers = all_outliers"
| "row_loop fmt counts tot mk (row # rows) all_outliers =
     (let occurrence_count = counts (fmt (numeric_value row)) in
      if real occurrence_count > real_of_int tot * FREQUENCY_THRESHOLD
      then row_loop fmt counts tot mk rows all_outliers
      else row_loop fmt counts tot mk rows (all_outliers @ [mk row]))"

text \<open>
  The third query: the valid rows of the source whose decimal is strictly below \<open>lower\<close> or
  strictly above \<open>upper\<close>, the two floats that the statement is given as parameters
  (a comparison of numbers; how the connector writes a float into the statement is not
  modelled).
\<close>

definition fetch_outlier_rows :: "database \<Rightarrow> nat \<Rightarrow> real \<Rightarrow> real \<Rightarrow> state_row list" where
  "fetch_outlier_rows db meta_id lower upper =
     filter (\<lambda>r. numeric_value r < lower \<or> numeric_value r > upper) (valid_states db meta_id)"

text \<open>
  The body of \<^verbatim>\<open>for candidate in candidates\<close>. Every \<^verbatim>\<open>continue\<close> returns the accumulator
  unchanged; \<^verbatim>\<open>float(None)\<close> raises \<^verbatim>\<open>TypeError\<close>. \<^verbatim>\<open>mean_val\<close> and \<^verbatim>\<open>std_val\<close> are the
  floats of the statistics; \<^verbatim>\<open>mean_val - SIGMA_THRESHOLD * std_val\<close> rounds after the
  product and after the difference, and so does the upper bound.
\<close>

definition scan_candidate ::
  "(real \<Rightarrow> string) \<Rightarrow> int \<Rightarrow> database \<Rightarrow> candidate \<Rightarrow> outlier list \<Rightarrow> py_error + outlier list" where
  "scan_candidate fmt min_samples db c all_outliers =
     (let meta_id = cand_metadata_id c; ent = cand_entity_id c in
      case stats_of db meta_id of
        None \<Rightarrow> Inr all_outliers
      | Some stats \<Rightarrow>
          if cnt stats < min_samples \<or> std_val stats = None \<or> std_val stats = Some 0
          then Inr all_outliers
          else
            (case mean_val stats of
               None \<Rightarrow> Inl TypeError
             | Some mean_d \<Rightarrow>
                 (case std_val stats of
                    None \<Rightarrow> Inl TypeError
                  | Some std_d \<Rightarrow>
                      (let tot = cnt stats; mean_v = fl mean_d; std_v = fl std_d in
                       if std_v = 0 then Inr all_outliers
                       else
                         (let lower = fl (mean_v - fl (SIGMA_THRESHOLD * std_v));
                              upper = fl (mean_v + fl (SIGMA_THRESHOLD * std_v));
                              outlier_rows = fetch_outlier_rows db meta_id lower upper
                          in if outlier_rows = [] then Inr all_outliers
                             else Inr (row_loop fmt (value_counts fmt outlier_rows) tot
                                    (make_outlier meta_id ent tot mean_v std_v lower upper)
                                    outlier_rows all_outliers))))))"

fun scan_loop ::
  "(real \<Rightarrow> string) \<Rightarrow> int \<Rightarrow> database \<Rightarrow> candidate list \<Rightarrow> outlier list \<Rightarrow> py_error + outlier list" where
  "scan_loop fmt min_samples db [] all_outliers = Inr all_outliers"
| "scan_loop fmt min_samples db (c # cs) all_outliers =
     (case scan_candidate fmt min_samples db c all_outliers of
        Inl e \<Rightarrow> Inl e
      | Inr all_outliers' \<Rightarrow> scan_loop fmt min_samples db cs all_outliers')"

definition find_outliers_in_states ::
  "(real \<Rightarrow> string) \<Rightarrow> int \<Rightarrow> database \<Rightarrow> py_error + outlier list" where
  "find_outliers_in_states fmt min_samples db =
     (let candidates = filter (\<lambda>c. recent_state c \<noteq> None) (states_meta db) in
      case scan_loop fmt min_samples db candidates [] of
        Inl e \<Rightarrow> Inl e
      | Inr all_outliers \<Rightarrow> Inr (sorted_desc deviation all_outliers))"

section \<open>Grouping: \<^verbatim>\<open>group_outliers\<close>\<close>

text \<open>
  A group is the dictionary \<^verbatim>\<open>{**o, "count": ..., ...}\<close>: the fields of the first outlier of
  its key and the member lists. \<^verbatim>\<open>_removed\<close> is absent until the session sets it, and is
  read with \<^verbatim>\<open>.get("_removed")\<close>: absent is \<open>False\<close>.
\<close>

record group = outlier +
  member_count :: nat
  ids :: "nat list"
  timestamps :: "real option list"
  member_values :: "real list"
  min_value :: real
  max_value :: real
  removed :: bool

text \<open>
  \<^verbatim>\<open>dev // band_size\<close> on a float is the floor of the quotient, as a float; \<^verbatim>\<open>int(x)\<close>
  truncates towards zero.
\<close>

definition py_floordiv :: "real \<Rightarrow> real \<Rightarrow> real" where
  "py_floordiv x y = of_int \<lfloor>x / y\<rfloor>"

definition py_int_of_float :: "real \<Rightarrow> int" where
  "py_int_of_float x = (if 0 \<le> x then \<lfloor>x\<rfloor> else \<lceil>x\<rceil>)"

definition band_size :: "real \<Rightarrow> int" where
  "band_size dev = (if dev < 10 then 1 else (if dev < 20 then 2 else 5))"

definition band :: "real \<Rightarrow> int" where
  "band dev = py_int_of_float (py_floordiv dev (of_int (band_size dev))) * band_size dev"

definition direction :: "'a outlier_scheme \<Rightarrow> string" where
  "direction x = (if rec_value x > mean x then ''above'' else ''below'')"

type_synonym group_key = "string \<times> int \<times> string"

definition outlier_key :: "'a outlier_scheme \<Rightarrow> group_key" where
  "outlier_key x = (entity_id x, band (deviation x), direction x)"

definition new_group :: "outlier \<Rightarrow> group" where
  "new_group x =
     outlier.extend x
       \<lparr>member_count = 1,
        ids = [rec_id x],
        timestamps = [timestamp x],
        member_values = [rec_value x],
        min_value = rec_value x,
        max_value = rec_value x,
        removed = False\<rparr>"

definition merge_outlier :: "outlier \<Rightarrow> group \<Rightarrow> group" where
  "merge_outlier x g =
     g\<lparr>member_count := member_count g + 1,
       ids := ids g @ [rec_id x],
       timestamps := timestamps g @ [timestamp x],
       member_values := member_values g @ [rec_value x],
       min_value := min (min_value g) (rec_value x),
       max_value := max (max_value g) (rec_value x)\<rparr>"

text \<open>
  The dictionary \<^verbatim>\<open>groups\<close> keeps its keys in insertion order: an association list, a new
  key at the end, an existing key updated in place.
\<close>

fun dict_update :: "'k \<Rightarrow> ('v \<Rightarrow> 'v) \<Rightarrow> ('k \<times> 'v) list \<Rightarrow> ('k \<times> 'v) list" where
  "dict_update k f [] = []"
| "dict_update k f ((k', v) # kvs) =
     (if k = k' then (k', f v) # kvs else (k', v) # dict_update k f kvs)"

definition add_outlier :: "(group_key \<times> group) list \<Rightarrow> outlier \<Rightarrow> (group_key \<times> group) list" where
  "add_outlier groups x =
     (let key = outlier_key x in
      if map_of groups key = None then groups @ [(key, new_group x)]
      else dict_update key (merge_outlier x) groups)"

definition group_outliers :: "outlier list \<Rightarrow> group list" where
  "group_outliers outliers = sorted_desc deviation (map snd (foldl add_outlier [] outliers))"

section \<open>The review session: \<^verbatim>\<open>display_outliers\<close>\<close>

text \<open>
  Strings are ASCII text. \<^verbatim>\<open>s.strip()\<close> removes the characters of \<^verbatim>\<open>str.isspace\<close> from both
  ends.
\<close>

definition is_space :: "char \<Rightarrow> bool" where
  "is_space c \<longleftrightarrow>
     c \<in> set [CHR '' '', CHR 0x09, CHR 0x0A, CHR 0x0B, CHR 0x0C, CHR 0x0D,
              CHR 0x1C, CHR 0x1D, CHR 0x1E, CHR 0x1F]"

definition py_strip :: "string \<Rightarrow> string" where
  "py_strip s = rev (dropWhile is_space (rev (dropWhile is_space s)))"

text \<open>
  \<^verbatim>\<open>int(s)\<close>: blanks, tabs, line feeds, vertical tabs, form feeds and carriage returns at
  both ends are dropped, then come an optional sign and decimal digits, with single
  underscores allowed between digits. \<open>None\<close> is \<^verbatim>\<open>ValueError\<close>. (The limit on the number
  of digits that \<^verbatim>\<open>int\<close> accepts is not modelled: such a number exceeds every list
  length.)
\<close>

definition is_c_space :: "char \<Rightarrow> bool" where
  "is_c_space c \<longleftrightarrow>
     c \<in> set [CHR '' '', CHR 0x09, CHR 0x0A, CHR 0x0B, CHR 0x0C, CHR 0x0D]"

definition digit_of :: "char \<Rightarrow> nat option" where
  "digit_of c =
     (if 48 \<le> (of_char c :: nat) \<and> (of_char c :: nat) \<le> 57 then Some (of_char c - 48) else None)"

fun digits_value :: "nat \<Rightarrow> string \<Rightarrow> nat option" where
  "digits_value acc [] = Some acc"
| "digits_value acc [c] = (case digit_of c of None \<Rightarrow> None | Some d \<Rightarrow> Some (10 * acc + d))"
| "digits_value acc (c # d # cs) =
     (if c = CHR ''_''
      then (case digit_of d of None \<Rightarrow> None | Some v \<Rightarrow> digits_value (10 * acc + v) cs)
      else (case digit_of c of None \<Rightarrow> None | Some v \<Rightarrow> digits_value (10 * acc + v) (d # cs)))"

definition unsigned_value :: "string \<Rightarrow> nat option" where
  "unsigned_value s =
     (case s of
        [] \<Rightarrow> None
      | c # cs \<Rightarrow> (case digit_of c of None \<Rightarrow> None | Some d \<Rightarrow> digits_value d cs))"

definition py_int :: "string \<Rightarrow> int option" where
  "py_int s =
     (case rev (dropWhile is_c_space (rev (dropWhile is_c_space s))) of
        [] \<Rightarrow> None
      | c # cs \<Rightarrow>
          if c = CHR ''-'' then map_option (\<lambda>n. - int n) (unsigned_value cs)
          else if c = CHR ''+'' then map_option int (unsigned_value cs)
          else map_option int (unsigned_value (c # cs)))"

text \<open>
  One pass of the \<^verbatim>\<open>while True\<close> loop of \<^verbatim>\<open>display_outliers\<close>, after the table is printed
  (printing changes no state and is not modelled). \<open>choice\<close> is the operator's reply as
  the code holds it, that is after \<^verbatim>\<open>.strip().lower()\<close>. The pass ends in the next pass on
  some page (\<open>Continue\<close>), in \<^verbatim>\<open>break\<close> (\<open>Quit\<close>), or in
  \<^verbatim>\<open>return (choice[0], num - 1, outliers[num - 1])\<close> (\<open>Selected\<close>).
\<close>

datatype browse_step = Continue int | Quit | Selected char nat group

definition display_step :: "group list \<Rightarrow> int \<Rightarrow> int \<Rightarrow> string \<Rightarrow> browse_step" where
  "display_step outliers total_pages page choice =
     (if choice = ''n'' \<and> page < total_pages - 1 then Continue (page + 1)
      else if choice = ''p'' \<and> page > 0 then Continue (page - 1)
      else if choice = ''q'' then Quit
      else if choice \<noteq> [] \<and> hd choice \<in> set ''ed'' then
        (case py_int (py_strip (tl choice)) of
           None \<Rightarrow> Continue page
         | Some num \<Rightarrow>
             if 1 \<le> num \<and> num \<le> int (length outliers) \<and> \<not> removed (outliers ! nat (num - 1))
             then Selected (hd choice) (nat (num - 1)) (outliers ! nat (num - 1))
             else Continue page)
      else Continue page)"

text \<open>
  The loop over the operator's replies. When the replies are used up the prompt reads end
  of input, and \<^verbatim>\<open>EOFError\<close> leaves the function. The result holds the replies not read.
\<close>

type_synonym selection = "char \<times> nat \<times> group"

fun display_loop ::
  "group list \<Rightarrow> int \<Rightarrow> int \<Rightarrow> string list \<Rightarrow> py_error + (selection option \<times> string list)" where
  "display_loop outliers total_pages page [] = Inl EOFError"
| "display_loop outliers total_pages page (choice # rest) =
     (case display_step outliers total_pages page choice of
        Continue page' \<Rightarrow> display_loop outliers total_pages page' rest
      | Quit \<Rightarrow> Inr (None, rest)
      | Selected a i g \<Rightarrow> Inr (Some (a, i, g), rest))"

definition display_outliers ::
  "group list \<Rightarrow> int \<Rightarrow> int \<Rightarrow> string list \<Rightarrow> py_error + (selection option \<times> string list)" where
  "display_outliers outliers page_size start_page choices =
     (let active = filter (\<lambda>g. \<not> removed g) outliers in
      if active = [] then Inr (None, choices)
      else if page_size = 0 then Inl ZeroDivisionError
      else
        (let total_pages = (int (length outliers) + page_size - 1) div page_size;
             page = (if total_pages > 0 then max 0 (min start_page (total_pages - 1)) else 0)
         in display_loop outliers total_pages page choices))"

section \<open>Mutations: \<^verbatim>\<open>edit_outlier\<close> and \<^verbatim>\<open>delete_outlier\<close>\<close>

text \<open>
  The table \<^verbatim>\<open>states\<close> as the mutations see it: \<open>stored_state\<close> is the number whose text an
  edit writes. A connection holds the table as committed, the table as its open
  transaction sees it, and the outcome of each coming call on it (\<open>None\<close>: the call
  succeeds; a list used up: every further call succeeds). A call that raises changes
  nothing.
\<close>

record stored_row =
  stored_id :: nat
  stored_state :: real
  old_state_id :: "nat option"

record connection =
  committed :: "stored_row list"
  pending :: "stored_row list"
  outcomes :: "mysql_error option list"

definition next_outcome :: "connection \<Rightarrow> mysql_error option \<times> connection" where
  "next_outcome c = (case outcomes c of [] \<Rightarrow> (None, c) | r # rs \<Rightarrow> (r, c\<lparr>outcomes := rs\<rparr>))"

definition db_cursor :: "connection \<Rightarrow> mysql_error option \<times> connection" where
  "db_cursor c = next_outcome c"

definition db_execute ::
  "(stored_row list \<Rightarrow> stored_row list) \<Rightarrow> connection \<Rightarrow> mysql_error option \<times> connection" where
  "db_execute stmt c =
     (case next_outcome c of
        (Some e, c') \<Rightarrow> (Some e, c')
      | (None, c') \<Rightarrow> (None, c'\<lparr>pending := stmt (pending c')\<rparr>))"

definition db_commit :: "connection \<Rightarrow> mysql_error option \<times> connection" where
  "db_commit c =
     (case next_outcome c of
        (Some e, c') \<Rightarrow> (Some e, c')
      | (None, c') \<Rightarrow> (None, c'\<lparr>committed := pending c'\<rparr>))"

definition db_rollback :: "connection \<Rightarrow> mysql_error option \<times> connection" where
  "db_rollback c =
     (case next_outcome c of
        (Some e, c') \<Rightarrow> (Some e, c')
      | (None, c') \<Rightarrow> (None, c'\<lparr>pending := committed c'\<rparr>))"

text \<open>
  \<^verbatim>\<open>connect()\<close>: a new connection to the same server; the transaction of the connection it
  replaces is gone.
\<close>

definition db_connect :: "connection \<Rightarrow> mysql_error option \<times> connection" where
  "db_connect c =
     (case next_outcome c of
        (Some e, c') \<Rightarrow> (Some e, c')
      | (None, c') \<Rightarrow> (None, c'\<lparr>pending := committed c'\<rparr>))"

text \<open>The three statements, as functions on the table.\<close>

definition update_state :: "real \<Rightarrow> nat list \<Rightarrow> stored_row list \<Rightarrow> stored_row list" where
  "update_state new_value member_ids table =
     map (\<lambda>r. if stored_id r \<in> set member_ids then r\<lparr>stored_state := new_value\<rparr> else r) table"

definition clear_old_state :: "nat list \<Rightarrow> stored_row list \<Rightarrow> stored_row list" where
  "clear_old_state member_ids table =
     map (\<lambda>r. if old_state_id r \<in> Some ` set member_ids then r\<lparr>old_state_id := None\<rparr> else r) table"

definition delete_states :: "nat list \<Rightarrow> stored_row list \<Rightarrow> stored_row list" where
  "delete_states member_ids table = filter (\<lambda>r. stored_id r \<notin> set member_ids) table"

text \<open>
  The operator. \<open>choices\<close> are the replies at the browsing prompt. A reply at the prompt
  \<^verbatim>\<open>New value\<close> is \<^verbatim>\<open>"c"\<close>, \<^verbatim>\<open>"m"\<close>, a text that \<^verbatim>\<open>float\<close> accepts (with its value) or
  any other text. \<open>confirmations\<close> are the answers that \<^verbatim>\<open>Confirm.ask\<close> returns. A prompt
  with no reply left raises \<^verbatim>\<open>EOFError\<close>.
\<close>

datatype edit_reply = Cancel | UseMean | NewValue real | NotANumber

record operator =
  choices :: "string list"
  edit_replies :: "edit_reply list"
  confirmations :: "bool list"

text \<open>The handler \<^verbatim>\<open>except mysql.connector.Error\<close>: roll back, then \<^verbatim>\<open>return False\<close>.\<close>

definition rollback_return_False :: "connection \<Rightarrow> (py_error + bool) \<times> connection" where
  "rollback_return_False c =
     (case db_rollback c of
        (Some e, c') \<Rightarrow> (Inl (MysqlError e), c')
      | (None, c') \<Rightarrow> (Inr False, c'))"

text \<open>
  The block \<^verbatim>\<open>with conn.cursor() as cursor\<close> of \<^verbatim>\<open>edit_outlier\<close>. The cursor is made outside
  the \<^verbatim>\<open>try\<close>: an error there leaves the function.
\<close>

definition edit_transaction :: "connection \<Rightarrow> nat list \<Rightarrow> real \<Rightarrow> (py_error + bool) \<times> connection" where
  "edit_transaction c member_ids new_value =
     (case db_cursor c of
        (Some e, c0) \<Rightarrow> (Inl (MysqlError e), c0)
      | (None, c0) \<Rightarrow>
          (case db_execute (update_state new_value member_ids) c0 of
             (Some e, c1) \<Rightarrow> rollback_return_False c1
           | (None, c1) \<Rightarrow>
               (case db_commit c1 of
                  (Some e, c2) \<Rightarrow> rollback_return_False c2
                | (None, c2) \<Rightarrow> (Inr True, c2))))"

definition edit_outlier ::
  "connection \<Rightarrow> group \<Rightarrow> operator \<Rightarrow> (py_error + bool) \<times> connection \<times> operator" where
  "edit_outlier c outlier op =
     (case edit_replies op of
        [] \<Rightarrow> (Inl EOFError, c, op)
      | reply # rest \<Rightarrow>
          (let op' = op\<lparr>edit_replies := rest\<rparr> in
           case reply of
             Cancel \<Rightarrow> (Inr False, c, op')
           | NotANumber \<Rightarrow> (Inr False, c, op')
           | UseMean \<Rightarrow>
               (let (r, c') = edit_transaction c (ids outlier) (mean outlier) in (r, c', op'))
           | NewValue v \<Rightarrow>
               (let (r, c') = edit_transaction c (ids outlier) v in (r, c', op'))))"

definition delete_transaction :: "connection \<Rightarrow> nat list \<Rightarrow> (py_error + bool) \<times> connection" where
  "delete_transaction c member_ids =
     (case db_cursor c of
        (Some e, c0) \<Rightarrow> (Inl (MysqlError e), c0)
      | (None, c0) \<Rightarrow>
          (case db_execute (clear_old_state member_ids) c0 of
             (Some e, c1) \<Rightarrow> rollback_return_False c1
           | (None, c1) \<Rightarrow>
               (case db_execute (delete_states member_ids) c1 of
                  (Some e, c2) \<Rightarrow> rollback_return_False c2
                | (None, c2) \<Rightarrow>
                    (case db_commit c2 of
                       (Some e, c3) \<Rightarrow> rollback_return_False c3
                     | (None, c3) \<Rightarrow> (Inr True, c3)))))"

definition delete_outlier ::
  "connection \<Rightarrow> group \<Rightarrow> operator \<Rightarrow> (py_error + bool) \<times> connection \<times> operator" where
  "delete_outlier c outlier op =
     (case confirmations op of
        [] \<Rightarrow> (Inl EOFError, c, op)
      | answer # rest \<Rightarrow>
          (let op' = op\<lparr>confirmations := rest\<rparr> in
           if \<not> answer then (Inr False, c, op')
           else (let (r, c') = delete_transaction c (ids outlier) in (r, c', op'))))"

section \<open>The session loop of \<^verbatim>\<open>main\<close>\<close>

record session =
  all_outliers :: "group list"
  current_page :: int
  conn :: connection
  operator :: operator

text \<open>
  The condition \<^verbatim>\<open>(action == "e" and edit_outlier(...)) or (action == "d" and
  delete_outlier(...))\<close>.
\<close>

definition mutate ::
  "char \<Rightarrow> connection \<Rightarrow> group \<Rightarrow> operator \<Rightarrow> (py_error + bool) \<times> connection \<times> operator" where
  "mutate action c outlier op =
     (if action = CHR ''e'' then edit_outlier c outlier op
      else if action = CHR ''d'' then delete_outlier c outlier op
      else (Inr False, c, op))"

text \<open>
  The body of \<^verbatim>\<open>while result := display_outliers(...)\<close>. Only
  \<^verbatim>\<open>mysql.connector.OperationalError\<close> is caught; any other exception ends the program.
\<close>

definition main_body :: "session \<Rightarrow> selection \<Rightarrow> py_error + session" where
  "main_body s sel =
     (case sel of (action, idx, outlier) \<Rightarrow>
        (let s1 = s\<lparr>current_page := int idx div PAGE_SIZE\<rparr> in
         case mutate action (conn s1) outlier (operator s1) of
           (Inr True, c, op) \<Rightarrow>
             if idx < length (all_outliers s1)
             then Inr (s1\<lparr>all_outliers := (all_outliers s1)[idx := (all_outliers s1 ! idx)\<lparr>removed := True\<rparr>],
                        conn := c, operator := op\<rparr>)
             else Inl IndexError
         | (Inr False, c, op) \<Rightarrow> Inr (s1\<lparr>conn := c, operator := op\<rparr>)
         | (Inl (MysqlError OperationalError), c, op) \<Rightarrow>
             (case db_connect c of
                (Some e, c') \<Rightarrow> Inl (MysqlError e)
              | (None, c') \<Rightarrow> Inr (s1\<lparr>conn := c', operator := op\<rparr>))
         | (Inl e, c, op) \<Rightarrow> Inl e))"

function main_loop :: "session \<Rightarrow> py_error + session" where
  "main_loop s =
     (case display_outliers (all_outliers s) PAGE_SIZE (current_page s) (choices (operator s)) of
        Inl e \<Rightarrow> Inl e
      | Inr (None, rest) \<Rightarrow> Inr (s\<lparr>operator := (operator s)\<lparr>choices := rest\<rparr>\<rparr>)
      | Inr (Some sel, rest) \<Rightarrow>
          (case main_body (s\<lparr>operator := (operator s)\<lparr>choices := rest\<rparr>\<rparr>) sel of
             Inl e \<Rightarrow> Inl e
           | Inr s' \<Rightarrow> main_loop s'))"
  by pat_completeness auto

termination main_loop
proof (relation "measure (\<lambda>s. length (choices (operator s)))")
  show "wf (measure (\<lambda>s. length (choices (operator s))))"
    by simp
next
  fix s :: session and x :: "selection option \<times> string list" and sel_opt rest sel s'
  assume disp: "display_outliers (all_outliers s) PAGE_SIZE (current_page s) (choices (operator s)) = Inr x"
    and x: "(sel_opt, rest) = x" and sel: "sel_opt = Some sel"
    and body: "main_body (s\<lparr>operator := (operator s)\<lparr>choices := rest\<rparr>\<rparr>) sel = Inr s'"
  have loop_shorter: "length r < length cs"
    if "display_loop gs tp page cs = Inr (Some z, r)" for gs tp page cs z r
    using that
  proof (induction cs arbitrary: page)
    case Nil
    then show ?case by simp
  next
    case (Cons c cs)
    show ?case
    proof (cases "display_step gs tp page c")
      case (Continue page')
      with Cons.prems have "display_loop gs tp page' cs = Inr (Some z, r)" by simp
      then have "length r < length cs" by (rule Cons.IH)
      then show ?thesis by simp
    next
      case Quit
      with Cons.prems show ?thesis by simp
    next
      case (Selected a i g)
      with Cons.prems show ?thesis by simp
    qed
  qed
  from disp x sel have "display_outliers (all_outliers s) PAGE_SIZE (current_page s) (choices (operator s)) = Inr (Some sel, rest)"
    by simp
  then have "display_loop (all_outliers s)
      ((int (length (all_outliers s)) + PAGE_SIZE - 1) div PAGE_SIZE)
      (if (int (length (all_outliers s)) + PAGE_SIZE - 1) div PAGE_SIZE > 0
       then max 0 (min (current_page s) ((int (length (all_outliers s)) + PAGE_SIZE - 1) div PAGE_SIZE - 1)) else 0)
      (choices (operator s)) = Inr (Some sel, rest)"
    by (simp add: display_outliers_def Let_def split: if_splits)
  then have shorter: "length rest < length (choices (operator s))"
    by (rule loop_shorter)
  have edit_choices: "choices (snd (snd (edit_outlier c g op))) = choices op" for c g op
    by (simp add: edit_outlier_def Let_def split: list.splits edit_reply.splits prod.splits)
  have delete_choices: "choices (snd (snd (delete_outlier c g op))) = choices op" for c g op
    by (simp add: delete_outlier_def Let_def split: list.splits prod.splits)
  have mutate_choices: "choices (snd (snd (mutate a c g op))) = choices op" for a c g op
    by (simp add: mutate_def edit_choices delete_choices)
  obtain a i g where sel_eq: "sel = (a, i, g)" by (cases sel)
  obtain r c op where m: "mutate a (conn s) g ((operator s)\<lparr>choices := rest\<rparr>) = (r, c, op)"
    by (cases "mutate a (conn s) g ((operator s)\<lparr>choices := rest\<rparr>)")
  from mutate_choices [of a "conn s" g "(operator s)\<lparr>choices := rest\<rparr>"] m
  have op: "choices op = rest" by simp
  from body sel_eq m op have "choices (operator s') = rest"
    by (auto simp add: main_body_def Let_def split: sum.splits bool.splits py_error.splits
        mysql_error.splits option.splits prod.splits if_splits)
  with shorter show "(s', s) \<in> measure (\<lambda>s. length (choices (operator s)))"
    by simp
qed

declare main_loop.simps [simp del]

section \<open>Notions used in the proofs\<close>

text \<open>
  The rows of \<open>rows\<close> that the frequency filter of the scan keeps: those whose formatted
  value does not occur more than \<^verbatim>\<open>total_samples * FREQUENCY_THRESHOLD\<close> times among \<open>rows\<close>.
\<close>

definition kept_rows :: "(real \<Rightarrow> string) \<Rightarrow> int \<Rightarrow> state_row list \<Rightarrow> state_row list" where
  "kept_rows fmt tot rows =
     filter (\<lambda>r. \<not> real (value_counts fmt rows (fmt (numeric_value r))) > real_of_int tot * FREQUENCY_THRESHOLD) rows"

text \<open>
  The scan of a row of decimal \<open>v\<close>, for statistics \<open>mean_d\<close> and \<open>std_d\<close>, rounds nowhere:
  the three conversions, the product, the two bounds, the difference and the quotient are
  binary64 numbers as they are.
\<close>

definition exact_scan :: "real \<Rightarrow> real \<Rightarrow> real \<Rightarrow> bool" where
  "exact_scan mean_d std_d v \<longleftrightarrow>
     fl mean_d = mean_d \<and> fl std_d = std_d \<and> fl v = v \<and>
     fl (SIGMA_THRESHOLD * std_d) = SIGMA_THRESHOLD * std_d \<and>
     fl (mean_d - SIGMA_THRESHOLD * std_d) = mean_d - SIGMA_THRESHOLD * std_d \<and>
     fl (mean_d + SIGMA_THRESHOLD * std_d) = mean_d + SIGMA_THRESHOLD * std_d \<and>
     fl (v - mean_d) = v - mean_d \<and>
     fl (\<bar>v - mean_d\<bar> / std_d) = \<bar>v - mean_d\<bar> / std_d"

text \<open>
  What holds of a record of the scan, read against the database: it comes from a valid row
  of its source whose decimal is strictly outside the computed bounds, it holds the floats
  of the statistics and of the value, the bounds and the deviation as the code computes
  them, and where nothing rounds it is as the specification has it.
\<close>

definition scanned :: "database \<Rightarrow> outlier \<Rightarrow> bool" where
  "scanned db x \<longleftrightarrow>
     (\<exists>st mean_d std_d row.
        stats_of db (metadata_id x) = Some st \<and> mean_val st = Some mean_d \<and>
        std_val st = Some std_d \<and> std_d \<noteq> 0 \<and>
        row \<in> set (valid_states db (metadata_id x)) \<and> rec_id x = state_id row \<and>
        mean x = fl mean_d \<and>
        rec_value x = fl (numeric_value row) \<and>
        lower_bound x = fl (mean x - fl (SIGMA_THRESHOLD * fl std_d)) \<and>
        upper_bound x = fl (mean x + fl (SIGMA_THRESHOLD * fl std_d)) \<and>
        \<not> (lower_bound x \<le> numeric_value row \<and> numeric_value row \<le> upper_bound x) \<and>
        deviation x = fl (\<bar>fl (rec_value x - mean x)\<bar> / fl std_d) \<and>
        (0 < std_d \<and> exact_scan mean_d std_d (numeric_value row) \<longrightarrow>
           deviation x = \<bar>numeric_value row - mean_d\<bar> / std_d \<and>
           SIGMA_THRESHOLD \<le> deviation x \<and>
           \<not> (mean_d - SIGMA_THRESHOLD * std_d \<le> numeric_value row \<and>
              numeric_value row \<le> mean_d + SIGMA_THRESHOLD * std_d)))"

text \<open>
  The outliers of one key, in the order of the input, and the group that
  \<^verbatim>\<open>group_outliers\<close> builds from such a list of members.
\<close>

definition members_of :: "group_key \<Rightarrow> outlier list \<Rightarrow> outlier list" where
  "members_of k xs = filter (\<lambda>x. outlier_key x = k) xs"

definition built_from :: "outlier list \<Rightarrow> group \<Rightarrow> bool" where
  "built_from ms g \<longleftrightarrow>
     ms \<noteq> [] \<and> outlier.truncate g = hd ms \<and>
     member_count g = length ms \<and>
     ids g = map rec_id ms \<and>
     timestamps g = map timestamp ms \<and>
     member_values g = map rec_value ms \<and>
     min_value g = Min (set (map rec_value ms)) \<and>
     max_value g = Max (set (map rec_value ms)) \<and>
     \<not> removed g"

definition groups_inv :: "outlier list \<Rightarrow> (group_key \<times> group) list \<Rightarrow> bool" where
  "groups_inv xs gs \<longleftrightarrow>
     distinct (map fst gs) \<and> set (map fst gs) = outlier_key ` set xs \<and>
     (\<forall>(k, g)\<in>set gs. built_from (members_of k xs) g)"

text \<open>
  The result of a mutation against the table \<open>table\<close> that was committed before it: after
  \<^verbatim>\<open>True\<close> or \<^verbatim>\<open>False\<close> no transaction is open, and unless the result is \<^verbatim>\<open>True\<close> the
  committed table is still \<open>table\<close>.
\<close>

definition settled :: "stored_row list \<Rightarrow> (py_error + bool) \<times> connection \<Rightarrow> bool" where
  "settled table rc \<longleftrightarrow>
     (case rc of (r, c') \<Rightarrow>
        (r = Inr True \<longrightarrow> pending c' = committed c') \<and>
        (r = Inr False \<longrightarrow> pending c' = committed c' \<and> committed c' = table) \<and>
        (r \<noteq> Inr True \<longrightarrow> committed c' = table))"

text \<open>
  The calls of a mutation on the connection, counted from 0 in the order the code makes
  them: the cursor, the statement (two statements for a delete), the commit, and after
  the first of these that fails, the rollback. \<open>call_outcome c k\<close> is the outcome of call
  \<open>k\<close> on the connection \<open>c\<close>; \<open>storage_calls a\<close> is the number of calls of a mutation that
  succeeds; \<open>first_failure c n\<close> is the first of the calls \<open>0, \<dots>, n - 1\<close> that fails;
  \<open>after_rollback r\<close> is what the handler leaves when its rollback has the outcome \<open>r\<close>:
  \<^verbatim>\<open>False\<close>, or the exception of the rollback. The mutation \<open>reaches_storage\<close> when the
  operator's reply lets it: a new value or \<open>m\<close> for an edit, a confirmation for a delete.
\<close>

definition call_outcome :: "connection \<Rightarrow> nat \<Rightarrow> mysql_error option" where
  "call_outcome c k = (if k < length (outcomes c) then outcomes c ! k else None)"

definition storage_calls :: "char \<Rightarrow> nat" where
  "storage_calls a = (if a = CHR ''e'' then 3 else 4)"

definition first_failure :: "connection \<Rightarrow> nat \<Rightarrow> nat option" where
  "first_failure c n = find (\<lambda>k. call_outcome c k \<noteq> None) [0..<n]"

definition after_rollback :: "mysql_error option \<Rightarrow> py_error + bool" where
  "after_rollback r = (case r of None \<Rightarrow> Inr False | Some e \<Rightarrow> Inl (MysqlError e))"

definition reaches_storage :: "char \<Rightarrow> operator \<Rightarrow> bool" where
  "reaches_storage a op \<longleftrightarrow>
     (if a = CHR ''e'' then
        (case edit_replies op of
           [] \<Rightarrow> False
         | reply # rest \<Rightarrow> (case reply of Cancel \<Rightarrow> False | NotANumber \<Rightarrow> False | UseMean \<Rightarrow> True | NewValue v \<Rightarrow> True))
      else if a = CHR ''d'' then
        (case confirmations op of [] \<Rightarrow> False | answer # rest \<Rightarrow> answer)
      else False)"

section \<open>Example data\<close>

text \<open>
  The end-to-end scenario of the specification: a source with 300 valid samples, mean 20
  and standard deviation 1, and a sample of value 42.3; beside it a sample of value 42.5,
  which binary64 holds exactly, and one of value 21, within the bounds. \<open>example_fmt\<close> is
  \<^verbatim>\<open>f"{float(d):.6g}"\<close> on the decimals of the examples (42.3, 42.5, 50, -10, -3.95 and
  21). The two records of the scan: the float of 42.3 is \<open>2976597878715187 / 2 ^ 46\<close>, and
  its deviation is \<open>1569222995161907 / 2 ^ 46\<close> (Python prints 22.299999999999997).
\<close>

definition example_fmt :: "real \<Rightarrow> string" where
  "example_fmt v =
     (if v = 423 / 10 then ''42.3'' else if v = 85 / 2 then ''42.5'' else if v = 50 then ''50''
      else if v = - 10 then ''-10'' else if v = - 395 / 100 then ''-3.95'' else ''21'')"

definition example_db :: database where
  "example_db =
     \<lparr>states_meta = [\<lparr>cand_metadata_id = 1, cand_entity_id = ''sensor.t'', recent_state = Some 21\<rparr>],
      stats_of = (\<lambda>m. if m = 1 then Some \<lparr>cnt = 300, mean_val = Some 20, std_val = Some 1\<rparr> else None),
      valid_states = (\<lambda>m. if m = 1
         then [\<lparr>state_id = 7, numeric_value = 423 / 10, last_updated_ts = Some 1000\<rparr>,
               \<lparr>state_id = 8, numeric_value = 21, last_updated_ts = Some 1001\<rparr>,
               \<lparr>state_id = 9, numeric_value = 85 / 2, last_updated_ts = Some 1002\<rparr>]
         else [])\<rparr>"

definition exact_outlier :: outlier where
  "exact_outlier =
     \<lparr>rec_id = 9, metadata_id = 1, entity_id = ''sensor.t'', rec_value = 85 / 2,
      lower_bound = 15, upper_bound = 25, mean = 20, deviation = 45 / 2,
      timestamp = Some 1002, total_samples = 300\<rparr>"

definition example_outlier :: outlier where
  "example_outlier =
     \<lparr>rec_id = 7, metadata_id = 1, entity_id = ''sensor.t'', rec_value = 2976597878715187 / 2 ^ 46,
      lower_bound = 15, upper_bound = 25, mean = 20, deviation = 1569222995161907 / 2 ^ 46,
      timestamp = Some 1000, total_samples = 300\<rparr>"

text \<open>
  A source with mean 5 and standard deviation 1.79, and a sample of value -3.95, which is
  \<open>mean - 5 * std\<close>. The floats of the scan: 1.79 is \<open>2015360833248297 / 2 ^ 50\<close>, the lower
  bound is \<open>- 1111826158007091 / 2 ^ 48\<close> (Python prints -3.9499999999999993), the upper
  bound is \<open>3926575925113651 / 2 ^ 48\<close>, the value is \<open>- 4447304632028365 / 2 ^ 50\<close>, and the
  deviation is \<open>5629499534213119 / 2 ^ 50\<close> (Python prints 4.999999999999999).
\<close>

definition rounding_db :: database where
  "rounding_db =
     \<lparr>states_meta = [\<lparr>cand_metadata_id = 1, cand_entity_id = ''sensor.t'', recent_state = Some 5\<rparr>],
      stats_of = (\<lambda>m. if m = 1 then Some \<lparr>cnt = 300, mean_val = Some 5, std_val = Some (179 / 100)\<rparr> else None),
      valid_states = (\<lambda>m. if m = 1
         then [\<lparr>state_id = 3, numeric_value = - 395 / 100, last_updated_ts = Some 1000\<rparr>]
         else [])\<rparr>"

definition rounding_outlier :: outlier where
  "rounding_outlier =
     \<lparr>rec_id = 3, metadata_id = 1, entity_id = ''sensor.t'', rec_value = - 4447304632028365 / 2 ^ 50,
      lower_bound = - 1111826158007091 / 2 ^ 48, upper_bound = 3926575925113651 / 2 ^ 48, mean = 5,
      deviation = 5629499534213119 / 2 ^ 50,
      timestamp = Some 1000, total_samples = 300\<rparr>"

text \<open>A source with 1000 samples: the value 50 is fetched 11 times, the value -10 nine times.\<close>

definition frequency_db :: database where
  "frequency_db =
     \<lparr>states_meta = [\<lparr>cand_metadata_id = 1, cand_entity_id = ''sensor.t'', recent_state = Some 21\<rparr>],
      stats_of = (\<lambda>m. if m = 1 then Some \<lparr>cnt = 1000, mean_val = Some 20, std_val = Some 1\<rparr> else None),
      valid_states = (\<lambda>m. if m = 1
         then map (\<lambda>i. \<lparr>state_id = i, numeric_value = 50, last_updated_ts = None\<rparr>) [0..<11]
            @ map (\<lambda>i. \<lparr>state_id = i, numeric_value = - 10, last_updated_ts = None\<rparr>) [11..<20]
            @ [\<lparr>state_id = 20, numeric_value = 21, last_updated_ts = None\<rparr>]
         else [])\<rparr>"

text \<open>Three outliers of one source, sorted descending by deviation, and their two groups.\<close>

definition example_outliers :: "outlier list" where
  "example_outliers =
     [\<lparr>rec_id = 7, metadata_id = 1, entity_id = ''sensor.t'', rec_value = 423 / 10,
       lower_bound = 15, upper_bound = 25, mean = 20, deviation = 223 / 10,
       timestamp = Some 1000, total_samples = 300\<rparr>,
      \<lparr>rec_id = 9, metadata_id = 1, entity_id = ''sensor.t'', rec_value = 41,
       lower_bound = 15, upper_bound = 25, mean = 20, deviation = 21,
       timestamp = Some 1002, total_samples = 300\<rparr>,
      \<lparr>rec_id = 8, metadata_id = 1, entity_id = ''sensor.t'', rec_value = 128 / 10,
       lower_bound = 15, upper_bound = 25, mean = 20, deviation = 72 / 10,
       timestamp = None, total_samples = 300\<rparr>]"

definition example_groups :: "group list" where
  "example_groups =
     [\<lparr>rec_id = 7, metadata_id = 1, entity_id = ''sensor.t'', rec_value = 423 / 10,
       lower_bound = 15, upper_bound = 25, mean = 20, deviation = 223 / 10,
       timestamp = Some 1000, total_samples = 300,
       member_count = 2, ids = [7, 9], timestamps = [Some 1000, Some 1002],
       member_values = [423 / 10, 41], min_value = 41, max_value = 423 / 10, removed = False\<rparr>,
      \<lparr>rec_id = 8, metadata_id = 1, entity_id = ''sensor.t'', rec_value = 128 / 10,
       lower_bound = 15, upper_bound = 25, mean = 20, deviation = 72 / 10,
       timestamp = None, total_samples = 300,
       member_count = 1, ids = [8], timestamps = [None],
       member_values = [128 / 10], min_value = 128 / 10, max_value = 128 / 10, removed = False\<rparr>]"

text \<open>
  A table that holds the members of the example groups, the example groups with the first
  one already removed, and a session over given groups, call outcomes and browsing replies.
\<close>

definition example_table :: "stored_row list" where
  "example_table =
     [\<lparr>stored_id = 7, stored_state = 423 / 10, old_state_id = None\<rparr>,
      \<lparr>stored_id = 8, stored_state = 128 / 10, old_state_id = Some 7\<rparr>,
      \<lparr>stored_id = 9, stored_state = 41, old_state_id = Some 8\<rparr>,
      \<lparr>stored_id = 10, stored_state = 20, old_state_id = Some 9\<rparr>]"

definition reviewed_groups :: "group list" where
  "reviewed_groups = [(example_groups ! 0)\<lparr>removed := True\<rparr>, example_groups ! 1]"

definition example_session :: "group list \<Rightarrow> mysql_error option list \<Rightarrow> string list \<Rightarrow> session" where
  "example_session groups faults replies =
     \<lparr>all_outliers = groups,
      current_page = 3,
      conn = \<lparr>committed = example_table, pending = example_table, outcomes = faults\<rparr>,
      operator = \<lparr>choices = replies, edit_replies = [UseMean], confirmations = [True]\<rparr>\<rparr>"

section \<open>Rounding to binary64: properties\<close>

lemmas fl_defs = fl_def binade_def pow2_def round_half_even_def bits.simps

lemma pow2_pos: "0 < pow2 e"
  by (simp add: pow2_def)

lemma pow2_powi: "pow2 e = 2 powi e"
  by (simp add: pow2_def power_int_def field_simps)

lemma pow2_mono: "a \<le> b \<Longrightarrow> pow2 a \<le> pow2 b"
  by (simp add: pow2_powi power_int_increasing)

lemma pow2_half: "pow2 (e - 1) = pow2 e / 2"
  by (simp add: pow2_powi power_int_diff)

lemma bits_bounds: "0 < n \<Longrightarrow> 2 ^ (bits n - 1) \<le> n \<and> n < 2 ^ bits n"
proof (induction n rule: bits.induct)
  case (1 n)
  show ?case
  proof (cases "n div 2 = 0")
    case True
    with 1 have "n = 1" by (cases n) auto
    then show ?thesis by (simp add: bits.simps)
  next
    case False
    with 1 have ih: "2 ^ (bits (n div 2) - 1) \<le> n div 2" "n div 2 < 2 ^ bits (n div 2)"
      by simp_all
    from False have pos: "0 < bits (n div 2)" by (simp add: bits.simps [of "n div 2"])
    have b: "bits n = Suc (bits (n div 2))" using 1 by (simp add: bits.simps [of n])
    from pos have "(2::nat) ^ (bits n - 1) = 2 * 2 ^ (bits (n div 2) - 1)"
      by (cases "bits (n div 2)") (simp_all add: b)
    with ih(1) have "2 ^ (bits n - 1) \<le> n" by simp
    moreover from ih(2) have "n < 2 ^ bits n" by (simp add: b)
    ultimately show ?thesis ..
  qed
qed

text \<open>The exponent that \<open>binade\<close> finds is not above the number.\<close>

lemma binade_le:
  assumes "x \<noteq> 0"
  shows "pow2 (binade x) \<le> \<bar>x\<bar>"
proof (cases "1 \<le> \<bar>x\<bar>")
  case True
  let ?n = "nat \<lfloor>\<bar>x\<bar>\<rfloor>"
  from True have n: "0 < ?n" by simp
  from bits_bounds [OF n] have "2 ^ (bits ?n - 1) \<le> ?n" ..
  then have "(2::real) ^ (bits ?n - 1) \<le> real ?n"
    by (metis of_nat_le_iff of_nat_numeral of_nat_power)
  also have "real ?n \<le> \<bar>x\<bar>" using True by simp
  finally have le: "(2::real) ^ (bits ?n - 1) \<le> \<bar>x\<bar>" .
  from n have "0 < bits ?n" by (simp add: bits.simps [of ?n])
  then have "binade x = int (bits ?n - 1)" using True by (simp add: binade_def)
  with le show ?thesis by (simp add: pow2_def)
next
  case False
  let ?m = "nat (\<lceil>1 / \<bar>x\<bar>\<rceil> - 1)"
  from False assms have gt: "1 < 1 / \<bar>x\<bar>" by simp
  then have two: "2 \<le> \<lceil>1 / \<bar>x\<bar>\<rceil>" by linarith
  then have m: "0 < ?m" by simp
  from bits_bounds [OF m] have "?m < 2 ^ bits ?m" ..
  then have "\<lceil>1 / \<bar>x\<bar>\<rceil> \<le> 2 ^ bits ?m"
    using two by (simp add: nat_less_iff)
  then have "1 / \<bar>x\<bar> \<le> 2 ^ bits ?m"
    by (metis ceiling_le_iff of_int_numeral of_int_power)
  then have "1 / 2 ^ bits ?m \<le> \<bar>x\<bar>"
    using assms by (simp add: field_simps)
  moreover have "binade x = - int (bits ?m)" using False by (simp add: binade_def)
  moreover from m have "0 < bits ?m" by (simp add: bits.simps [of ?m])
  ultimately show ?thesis by (simp add: pow2_def)
qed

lemma round_half_even_nearest: "\<bar>of_int (round_half_even y) - y\<bar> \<le> 1 / 2"
  unfolding round_half_even_def by (auto; linarith)

lemma round_half_even_nonzero:
  assumes "1 \<le> \<bar>y\<bar>"
  shows "round_half_even y \<noteq> 0"
proof (cases "0 \<le> y")
  case True
  with assms have "1 \<le> \<lfloor>y\<rfloor>" by simp
  then show ?thesis unfolding round_half_even_def by (auto; linarith)
next
  case False
  with assms have y: "y \<le> - 1" by simp
  then have f: "\<lfloor>y\<rfloor> \<le> - 1" by (simp add: floor_le_iff)
  show ?thesis
  proof (cases "y - of_int \<lfloor>y\<rfloor> < 1 / 2")
    case True
    with f show ?thesis by (simp add: round_half_even_def)
  next
    case False
    then have "of_int \<lfloor>y\<rfloor> < y" by linarith
    with y have "of_int \<lfloor>y\<rfloor> < (- 1 :: real)" by linarith
    then have "\<lfloor>y\<rfloor> < - 1" by linarith
    then show ?thesis unfolding round_half_even_def by (auto; linarith)
  qed
qed

text \<open>
  Rounding moves a number by half a unit of its last place at most, and only zero rounds
  to zero (the model has no underflow).
\<close>

lemma fl_error: "\<bar>fl x - x\<bar> \<le> pow2 (binade x - 53)"
proof (cases "x = 0")
  case True
  then show ?thesis using pow2_pos [of "binade x - 53"] by (simp add: fl_def)
next
  case False
  let ?u = "pow2 (binade x - 52)"
  have u: "0 < ?u" by (rule pow2_pos)
  have half: "pow2 (binade x - 53) = ?u / 2"
    using pow2_half [of "binade x - 52"] by simp
  have "fl x - x = (of_int (round_half_even (x / ?u)) - x / ?u) * ?u"
    using False u by (simp add: fl_def algebra_simps)
  then have "\<bar>fl x - x\<bar> = \<bar>of_int (round_half_even (x / ?u)) - x / ?u\<bar> * ?u"
    using u by (simp add: abs_mult)
  also have "\<dots> \<le> 1 / 2 * ?u"
    using round_half_even_nearest [of "x / ?u"] u by (intro mult_right_mono) simp_all
  finally show ?thesis by (simp add: half)
qed

lemma fl_eq_0_iff: "fl x = 0 \<longleftrightarrow> x = 0"
proof
  assume "x = 0"
  then show "fl x = 0" by (simp add: fl_def)
next
  assume z: "fl x = 0"
  show "x = 0"
  proof (rule ccontr)
    assume nz: "x \<noteq> 0"
    have "pow2 (binade x - 52) \<le> pow2 (binade x)" by (rule pow2_mono) simp
    also have "\<dots> \<le> \<bar>x\<bar>" using nz by (rule binade_le)
    finally have "1 \<le> \<bar>x\<bar> / pow2 (binade x - 52)"
      using pow2_pos [of "binade x - 52"] by (simp add: pos_le_divide_eq)
    then have "1 \<le> \<bar>x / pow2 (binade x - 52)\<bar>"
      using pow2_pos [of "binade x - 52"] by simp
    then have "round_half_even (x / pow2 (binade x - 52)) \<noteq> 0"
      by (rule round_half_even_nonzero)
    with z nz pow2_pos [of "binade x - 52"] show False
      by (simp add: fl_def)
  qed
qed

text \<open>The floats of the examples.\<close>

lemma fl_exact_examples:
  "fl 1 = 1" "fl 5 = 5" "fl 15 = 15" "fl 20 = 20" "fl 25 = 25" "fl 50 = 50" "fl (- 10) = - 10"
  "fl (85 / 2) = 85 / 2" "fl (45 / 2) = 45 / 2"
  by (simp_all add: fl_defs)

lemma fl_example_42_3:
  "fl (423 / 10) = 2976597878715187 / 2 ^ 46"
  "fl (2976597878715187 / 2 ^ 46 - 20) = 1569222995161907 / 2 ^ 46"
  "fl (1569222995161907 / 2 ^ 46) = 1569222995161907 / 2 ^ 46"
  by (simp_all add: fl_defs)

lemma fl_rounding_examples:
  "fl (179 / 100) = 2015360833248297 / 2 ^ 50"
  "fl (5 * (2015360833248297 / 2 ^ 50)) = 2519201041560371 / 2 ^ 48"
  "fl (5 - 2519201041560371 / 2 ^ 48) = - 1111826158007091 / 2 ^ 48"
  "fl (5 + 2519201041560371 / 2 ^ 48) = 3926575925113651 / 2 ^ 48"
  "fl (- 395 / 100) = - 4447304632028365 / 2 ^ 50"
  "fl (- 4447304632028365 / 2 ^ 50 - 5) = - 2519201041560371 / 2 ^ 48"
  "fl (2519201041560371 / 2 ^ 48 / (2015360833248297 / 2 ^ 50)) = 5629499534213119 / 2 ^ 50"
  by (simp_all add: fl_defs)

text \<open>
  The threshold of the frequency filter at the total of the examples: the float 0.01 is
  above a hundredth, and its product with 1000 rounds to 10.
\<close>

lemma threshold_of_1000:
  "fl FREQUENCY_THRESHOLD = 5764607523034235 / 2 ^ 59"
  "fl (1000 * fl FREQUENCY_THRESHOLD) = 1000 * FREQUENCY_THRESHOLD"
  by (simp_all add: FREQUENCY_THRESHOLD_def fl_defs)

section \<open>The scan: properties\<close>

lemma row_loop_eq:
  "row_loop fmt counts tot mk rows acc =
     acc @ map mk (filter (\<lambda>r. \<not> real (counts (fmt (numeric_value r))) > real_of_int tot * FREQUENCY_THRESHOLD) rows)"
  by (induction rows arbitrary: acc) (simp_all add: Let_def)

lemma scan_candidate_qualified:
  assumes "stats_of db (cand_metadata_id c) = Some st"
    and "\<not> cnt st < min_samples"
    and "mean_val st = Some mean_d"
    and "std_val st = Some std_d"
    and "std_d \<noteq> 0"
  shows "scan_candidate fmt min_samples db c acc =
     Inr (acc @ map (make_outlier (cand_metadata_id c) (cand_entity_id c) (cnt st) (fl mean_d) (fl std_d)
                       (fl (fl mean_d - fl (SIGMA_THRESHOLD * fl std_d)))
                       (fl (fl mean_d + fl (SIGMA_THRESHOLD * fl std_d))))
                  (kept_rows fmt (cnt st)
                     (fetch_outlier_rows db (cand_metadata_id c)
                        (fl (fl mean_d - fl (SIGMA_THRESHOLD * fl std_d)))
                        (fl (fl mean_d + fl (SIGMA_THRESHOLD * fl std_d))))))"
  using assms by (simp add: scan_candidate_def Let_def row_loop_eq kept_rows_def fl_eq_0_iff)

lemma scan_candidate_Inr:
  assumes "scan_candidate fmt min_samples db c acc = Inr acc'"
  shows "acc' = acc \<or>
    (\<exists>st mean_d std_d. stats_of db (cand_metadata_id c) = Some st \<and> mean_val st = Some mean_d \<and>
        std_val st = Some std_d \<and> std_d \<noteq> 0 \<and>
        acc' = acc @ map (make_outlier (cand_metadata_id c) (cand_entity_id c) (cnt st) (fl mean_d) (fl std_d)
                       (fl (fl mean_d - fl (SIGMA_THRESHOLD * fl std_d)))
                       (fl (fl mean_d + fl (SIGMA_THRESHOLD * fl std_d))))
                  (kept_rows fmt (cnt st)
                     (fetch_outlier_rows db (cand_metadata_id c)
                        (fl (fl mean_d - fl (SIGMA_THRESHOLD * fl std_d)))
                        (fl (fl mean_d + fl (SIGMA_THRESHOLD * fl std_d))))))"
proof (cases "stats_of db (cand_metadata_id c)")
  case None
  with assms show ?thesis by (simp add: scan_candidate_def)
next
  case (Some st)
  show ?thesis
  proof (cases "cnt st < min_samples \<or> std_val st = None \<or> std_val st = Some 0")
    case True
    with Some assms show ?thesis by (auto simp add: scan_candidate_def)
  next
    case False
    then obtain std_d where sd: "std_val st = Some std_d" "std_d \<noteq> 0" by auto
    from False have c: "\<not> cnt st < min_samples" by simp
    show ?thesis
    proof (cases "mean_val st")
      case None
      with \<open>stats_of db (cand_metadata_id c) = Some st\<close> c sd assms show ?thesis
        by (simp add: scan_candidate_def Let_def)
    next
      case (Some mean_d)
      from scan_candidate_qualified [OF \<open>stats_of db (cand_metadata_id c) = Some st\<close> c Some sd, of fmt acc] assms
      show ?thesis using \<open>stats_of db (cand_metadata_id c) = Some st\<close> Some sd by auto
    qed
  qed
qed

lemma outside_bounds_deviation:
  fixes v m s k :: real
  assumes "0 < s" and "v < m - k * s \<or> v > m + k * s"
  shows "k \<le> \<bar>v - m\<bar> / s"
proof -
  from assms have "k * s \<le> \<bar>v - m\<bar>" by (auto simp add: abs_if)
  with \<open>0 < s\<close> show ?thesis by (simp add: pos_le_divide_eq)
qed

lemma made_outlier_scanned:
  assumes st: "stats_of db m = Some st" "mean_val st = Some mean_d" "std_val st = Some std_d" "std_d \<noteq> 0"
    and lower: "lower = fl (fl mean_d - fl (SIGMA_THRESHOLD * fl std_d))"
    and upper: "upper = fl (fl mean_d + fl (SIGMA_THRESHOLD * fl std_d))"
    and r: "r \<in> set (kept_rows fmt tot (fetch_outlier_rows db m lower upper))"
  shows "scanned db (make_outlier m ent tot (fl mean_d) (fl std_d) lower upper r)"
proof -
  define x where "x = make_outlier m ent tot (fl mean_d) (fl std_d) lower upper r"
  from r have out: "numeric_value r < lower \<or> numeric_value r > upper"
    by (simp add: kept_rows_def fetch_outlier_rows_def)
  have m: "metadata_id x = m"
    by (simp add: x_def make_outlier_def Let_def)
  from st(1) m have f1: "stats_of db (metadata_id x) = Some st" by simp
  from r m have f2: "r \<in> set (valid_states db (metadata_id x))"
    by (simp add: kept_rows_def fetch_outlier_rows_def)
  have f3: "rec_id x = state_id r" and f4: "mean x = fl mean_d"
    and f5: "rec_value x = fl (numeric_value r)"
    by (simp_all add: x_def make_outlier_def Let_def)
  have f6: "lower_bound x = fl (mean x - fl (SIGMA_THRESHOLD * fl std_d))"
    and f7: "upper_bound x = fl (mean x + fl (SIGMA_THRESHOLD * fl std_d))"
    by (simp_all add: x_def make_outlier_def Let_def lower upper)
  have lu: "lower_bound x = lower" "upper_bound x = upper"
    by (simp_all add: x_def make_outlier_def Let_def)
  from out have f8: "\<not> (lower_bound x \<le> numeric_value r \<and> numeric_value r \<le> upper_bound x)"
    unfolding lu by auto
  have f9: "deviation x = fl (\<bar>fl (rec_value x - mean x)\<bar> / fl std_d)"
    by (simp add: x_def make_outlier_def Let_def)
  have f10: "0 < std_d \<and> exact_scan mean_d std_d (numeric_value r) \<longrightarrow>
           deviation x = \<bar>numeric_value r - mean_d\<bar> / std_d \<and>
           SIGMA_THRESHOLD \<le> deviation x \<and>
           \<not> (mean_d - SIGMA_THRESHOLD * std_d \<le> numeric_value r \<and>
              numeric_value r \<le> mean_d + SIGMA_THRESHOLD * std_d)"
  proof (intro impI, elim conjE)
    assume pos: "0 < std_d" and ex: "exact_scan mean_d std_d (numeric_value r)"
    from ex have e: "fl mean_d = mean_d" "fl std_d = std_d" "fl (numeric_value r) = numeric_value r"
      "fl (SIGMA_THRESHOLD * std_d) = SIGMA_THRESHOLD * std_d"
      "fl (mean_d - SIGMA_THRESHOLD * std_d) = mean_d - SIGMA_THRESHOLD * std_d"
      "fl (mean_d + SIGMA_THRESHOLD * std_d) = mean_d + SIGMA_THRESHOLD * std_d"
      "fl (numeric_value r - mean_d) = numeric_value r - mean_d"
      "fl (\<bar>numeric_value r - mean_d\<bar> / std_d) = \<bar>numeric_value r - mean_d\<bar> / std_d"
      by (simp_all add: exact_scan_def)
    from lower upper have b: "lower = mean_d - SIGMA_THRESHOLD * std_d" "upper = mean_d + SIGMA_THRESHOLD * std_d"
      by (simp_all only: e)
    from f9 have d: "deviation x = \<bar>numeric_value r - mean_d\<bar> / std_d"
      by (simp only: f4 f5 e)
    from out b have o: "numeric_value r < mean_d - SIGMA_THRESHOLD * std_d \<or>
        numeric_value r > mean_d + SIGMA_THRESHOLD * std_d"
      by simp
    from outside_bounds_deviation [OF pos o] d o
    show "deviation x = \<bar>numeric_value r - mean_d\<bar> / std_d \<and>
           SIGMA_THRESHOLD \<le> deviation x \<and>
           \<not> (mean_d - SIGMA_THRESHOLD * std_d \<le> numeric_value r \<and>
              numeric_value r \<le> mean_d + SIGMA_THRESHOLD * std_d)"
      by auto
  qed
  have "scanned db x"
    unfolding scanned_def using f1 st(2-4) f2 f3 f4 f5 f6 f7 f8 f9 f10 by blast
  then show ?thesis by (simp only: x_def)
qed

lemma scan_candidate_scanned:
  assumes "scan_candidate fmt min_samples db c acc = Inr acc'"
    and "\<forall>x\<in>set acc. scanned db x"
  shows "\<forall>x\<in>set acc'. scanned db x"
  using scan_candidate_Inr [OF assms(1)]
proof
  assume "acc' = acc"
  with assms(2) show ?thesis by simp
next
  assume "\<exists>st mean_d std_d. stats_of db (cand_metadata_id c) = Some st \<and> mean_val st = Some mean_d \<and>
        std_val st = Some std_d \<and> std_d \<noteq> 0 \<and>
        acc' = acc @ map (make_outlier (cand_metadata_id c) (cand_entity_id c) (cnt st) (fl mean_d) (fl std_d)
                       (fl (fl mean_d - fl (SIGMA_THRESHOLD * fl std_d)))
                       (fl (fl mean_d + fl (SIGMA_THRESHOLD * fl std_d))))
                  (kept_rows fmt (cnt st)
                     (fetch_outlier_rows db (cand_metadata_id c)
                        (fl (fl mean_d - fl (SIGMA_THRESHOLD * fl std_d)))
                        (fl (fl mean_d + fl (SIGMA_THRESHOLD * fl std_d)))))"
  then obtain st mean_d std_d where s: "stats_of db (cand_metadata_id c) = Some st" "mean_val st = Some mean_d"
        "std_val st = Some std_d" "std_d \<noteq> 0"
     and acc': "acc' = acc @ map (make_outlier (cand_metadata_id c) (cand_entity_id c) (cnt st) (fl mean_d) (fl std_d)
                       (fl (fl mean_d - fl (SIGMA_THRESHOLD * fl std_d)))
                       (fl (fl mean_d + fl (SIGMA_THRESHOLD * fl std_d))))
                  (kept_rows fmt (cnt st)
                     (fetch_outlier_rows db (cand_metadata_id c)
                        (fl (fl mean_d - fl (SIGMA_THRESHOLD * fl std_d)))
                        (fl (fl mean_d + fl (SIGMA_THRESHOLD * fl std_d)))))"
    by blast
  show ?thesis
    using assms(2) made_outlier_scanned [OF s refl refl] by (auto simp add: acc')
qed

lemma scan_loop_scanned:
  assumes "scan_loop fmt min_samples db cs acc = Inr acc'"
    and "\<forall>x\<in>set acc. scanned db x"
  shows "\<forall>x\<in>set acc'. scanned db x"
  using assms
proof (induction cs arbitrary: acc)
  case Nil
  then show ?case by simp
next
  case (Cons c cs)
  from Cons.prems(1) obtain acc1 where 1: "scan_candidate fmt min_samples db c acc = Inr acc1"
    and 2: "scan_loop fmt min_samples db cs acc1 = Inr acc'"
    by (auto split: sum.splits)
  from scan_candidate_scanned [OF 1 Cons.prems(2)]
  have "\<forall>x\<in>set acc1. scanned db x" .
  with 2 show ?case by (rule Cons.IH)
qed

lemma set_sorted_desc: "set (sorted_desc k xs) = set xs"
  by (simp add: sorted_desc_def)

text \<open>
  Claim C1, as the code has it. Every outlier record that the scan produces comes from a
  valid row of its source. Its mean and value are the floats of the source's mean and of
  the row's decimal, its bounds are \<open>mean - 5 * std\<close> and \<open>mean + 5 * std\<close> computed in
  binary64 from the floats of the statistics (the product rounded, then the difference or
  the sum), and the row's decimal is strictly outside these computed bounds: no record is
  produced for a decimal within them. Its deviation is \<open>|value - mean| / std\<close> computed in
  binary64 (the difference rounded, then the quotient). Where the standard deviation is
  positive and none of these conversions and operations rounds, the deviation is exactly
  \<open>|value - mean| / std_dev\<close>, it is at least the sigma threshold (5), and the value is
  not inside \<open>[mean - 5 * std_dev, mean + 5 * std_dev]\<close>.
\<close>

theorem find_outliers_deviation:
  assumes "find_outliers_in_states fmt min_samples db = Inr outliers"
    and "x \<in> set outliers"
  shows "\<exists>st mean_d std_d row.
        stats_of db (metadata_id x) = Some st \<and> mean_val st = Some mean_d \<and>
        std_val st = Some std_d \<and> std_d \<noteq> 0 \<and>
        row \<in> set (valid_states db (metadata_id x)) \<and> rec_id x = state_id row \<and>
        mean x = fl mean_d \<and>
        rec_value x = fl (numeric_value row) \<and>
        lower_bound x = fl (mean x - fl (SIGMA_THRESHOLD * fl std_d)) \<and>
        upper_bound x = fl (mean x + fl (SIGMA_THRESHOLD * fl std_d)) \<and>
        \<not> (lower_bound x \<le> numeric_value row \<and> numeric_value row \<le> upper_bound x) \<and>
        deviation x = fl (\<bar>fl (rec_value x - mean x)\<bar> / fl std_d) \<and>
        (0 < std_d \<and> exact_scan mean_d std_d (numeric_value row) \<longrightarrow>
           deviation x = \<bar>numeric_value row - mean_d\<bar> / std_d \<and>
           SIGMA_THRESHOLD \<le> deviation x \<and>
           \<not> (mean_d - SIGMA_THRESHOLD * std_d \<le> numeric_value row \<and>
              numeric_value row \<le> mean_d + SIGMA_THRESHOLD * std_d))"
proof -
  from assms(1) obtain acc where
    loop: "scan_loop fmt min_samples db (filter (\<lambda>c. recent_state c \<noteq> None) (states_meta db)) [] = Inr acc"
    and out: "outliers = sorted_desc deviation acc"
    by (auto simp add: find_outliers_in_states_def split: sum.splits)
  from scan_loop_scanned [OF loop] have "\<forall>x\<in>set acc. scanned db x" by simp
  with assms(2) out have "scanned db x" by (simp add: set_sorted_desc)
  then show ?thesis unfolding scanned_def .
qed

lemma example_scan:
  "find_outliers_in_states example_fmt MIN_SAMPLES example_db = Inr [exact_outlier, example_outlier]"
  apply (simp add: find_outliers_in_states_def example_db_def scan_candidate_def MIN_SAMPLES_def
      SIGMA_THRESHOLD_def fetch_outlier_rows_def Let_def value_counts_def example_fmt_def
      FREQUENCY_THRESHOLD_def make_outlier_def sorted_desc_def example_outlier_def exact_outlier_def
      fl_exact_examples)
  apply (simp add: fl_defs)
  done

lemma example_exact: "exact_scan 20 1 (85 / 2)"
  by (simp add: exact_scan_def SIGMA_THRESHOLD_def fl_defs)

theorem find_outliers_deviation_witness:
  "find_outliers_in_states example_fmt MIN_SAMPLES example_db = Inr [exact_outlier, example_outlier]
   \<and> exact_scan 20 1 (85 / 2)
   \<and> rec_value exact_outlier = 85 / 2
   \<and> deviation exact_outlier = \<bar>85 / 2 - 20\<bar> / 1
   \<and> SIGMA_THRESHOLD \<le> deviation exact_outlier
   \<and> \<not> (20 - SIGMA_THRESHOLD * 1 \<le> (85 / 2 :: real) \<and> (85 / 2 :: real) \<le> 20 + SIGMA_THRESHOLD * 1)
   \<and> rec_value example_outlier = fl (423 / 10)
   \<and> deviation example_outlier = fl (\<bar>fl (fl (423 / 10) - 20)\<bar> / 1)
   \<and> \<not> (lower_bound example_outlier \<le> 423 / 10 \<and> 423 / 10 \<le> upper_bound example_outlier)"
proof -
  have stats: "stats_of example_db (metadata_id x) = Some st \<Longrightarrow> mean_val st = Some mean_d \<Longrightarrow>
      std_val st = Some std_d \<Longrightarrow> mean_d = 20 \<and> std_d = 1" for x st mean_d std_d
    by (auto simp add: example_db_def split: if_splits)
  have row9: "row \<in> set (valid_states example_db (metadata_id exact_outlier)) \<Longrightarrow>
      rec_id exact_outlier = state_id row \<Longrightarrow> numeric_value row = 85 / 2" for row
    by (auto simp add: example_db_def exact_outlier_def)
  have row7: "row \<in> set (valid_states example_db (metadata_id example_outlier)) \<Longrightarrow>
      rec_id example_outlier = state_id row \<Longrightarrow> numeric_value row = 423 / 10" for row
    by (auto simp add: example_db_def example_outlier_def)
  have mem: "exact_outlier \<in> set [exact_outlier, example_outlier]"
    "example_outlier \<in> set [exact_outlier, example_outlier]"
    by simp_all
  from find_outliers_deviation [OF example_scan mem(1)]
  obtain st mean_d std_d row where a:
    "stats_of example_db (metadata_id exact_outlier) = Some st" "mean_val st = Some mean_d"
    "std_val st = Some std_d"
    "row \<in> set (valid_states example_db (metadata_id exact_outlier))" "rec_id exact_outlier = state_id row"
    "rec_value exact_outlier = fl (numeric_value row)"
    "0 < std_d \<and> exact_scan mean_d std_d (numeric_value row) \<longrightarrow>
           deviation exact_outlier = \<bar>numeric_value row - mean_d\<bar> / std_d \<and>
           SIGMA_THRESHOLD \<le> deviation exact_outlier \<and>
           \<not> (mean_d - SIGMA_THRESHOLD * std_d \<le> numeric_value row \<and>
              numeric_value row \<le> mean_d + SIGMA_THRESHOLD * std_d)"
    by blast
  from stats [OF a(1-3)] row9 [OF a(4,5)] have v: "mean_d = 20" "std_d = 1" "numeric_value row = 85 / 2"
    by simp_all
  from a(6,7) example_exact have exact:
    "rec_value exact_outlier = 85 / 2"
    "deviation exact_outlier = \<bar>85 / 2 - 20\<bar> / 1"
    "SIGMA_THRESHOLD \<le> deviation exact_outlier"
    "\<not> (20 - SIGMA_THRESHOLD * 1 \<le> (85 / 2 :: real) \<and> (85 / 2 :: real) \<le> 20 + SIGMA_THRESHOLD * 1)"
    unfolding v by (simp_all add: fl_exact_examples)
  from find_outliers_deviation [OF example_scan mem(2)]
  obtain st' mean_d' std_d' row' where b:
    "stats_of example_db (metadata_id example_outlier) = Some st'" "mean_val st' = Some mean_d'"
    "std_val st' = Some std_d'"
    "row' \<in> set (valid_states example_db (metadata_id example_outlier))" "rec_id example_outlier = state_id row'"
    "mean example_outlier = fl mean_d'"
    "rec_value example_outlier = fl (numeric_value row')"
    "\<not> (lower_bound example_outlier \<le> numeric_value row' \<and> numeric_value row' \<le> upper_bound example_outlier)"
    "deviation example_outlier = fl (\<bar>fl (rec_value example_outlier - mean example_outlier)\<bar> / fl std_d')"
    by blast
  from stats [OF b(1-3)] row7 [OF b(4,5)] have v': "mean_d' = 20" "std_d' = 1" "numeric_value row' = 423 / 10"
    by simp_all
  from b(7) have r1: "rec_value example_outlier = fl (423 / 10)"
    by (simp only: v')
  from b(9) have r2: "deviation example_outlier = fl (\<bar>fl (fl (423 / 10) - 20)\<bar> / 1)"
    by (simp only: b(6) r1 v' fl_exact_examples)
  from b(8) have r3: "\<not> (lower_bound example_outlier \<le> 423 / 10 \<and> 423 / 10 \<le> upper_bound example_outlier)"
    unfolding v' .
  note rounded = r1 r2 r3
  from example_scan example_exact exact rounded show ?thesis by blast
qed

text \<open>
  Claim C1 as stated fails where an operation rounds. A source has mean 5 and standard
  deviation 1.79, and a sample of value -3.95, exactly \<open>mean - 5 * std_dev\<close>: a value of
  the interval \<open>[mean - 5 * std_dev, mean + 5 * std_dev]\<close>. The computed lower bound is
  above -3.95, so the row is fetched and a record is produced. Its deviation is below the
  threshold, in band 4, and it is not \<open>|value - mean| / std_dev\<close>, which is 5 both on the
  decimals of the database and on the floats of the record.
\<close>

theorem find_outliers_deviation_counterexample:
  "find_outliers_in_states example_fmt MIN_SAMPLES rounding_db = Inr [rounding_outlier]
   \<and> deviation rounding_outlier < SIGMA_THRESHOLD
   \<and> band (deviation rounding_outlier) = 4
   \<and> \<bar>- 395 / 100 - 5\<bar> / (179 / 100) = SIGMA_THRESHOLD
   \<and> \<bar>rec_value rounding_outlier - mean rounding_outlier\<bar> / fl (179 / 100) = SIGMA_THRESHOLD
   \<and> 5 - SIGMA_THRESHOLD * (179 / 100) \<le> - 395 / 100
   \<and> - 395 / 100 \<le> 5 + SIGMA_THRESHOLD * (179 / 100)
   \<and> mean rounding_outlier - SIGMA_THRESHOLD * fl (179 / 100) \<le> rec_value rounding_outlier
   \<and> rec_value rounding_outlier \<le> mean rounding_outlier + SIGMA_THRESHOLD * fl (179 / 100)"
proof -
  have "find_outliers_in_states example_fmt MIN_SAMPLES rounding_db = Inr [rounding_outlier]"
    apply (simp add: find_outliers_in_states_def rounding_db_def scan_candidate_def MIN_SAMPLES_def
      SIGMA_THRESHOLD_def fetch_outlier_rows_def Let_def value_counts_def example_fmt_def
      FREQUENCY_THRESHOLD_def make_outlier_def sorted_desc_def rounding_outlier_def
      fl_exact_examples)
    apply (simp add: fl_defs)
    done
  moreover have "deviation rounding_outlier < SIGMA_THRESHOLD"
    by (simp add: rounding_outlier_def SIGMA_THRESHOLD_def)
  moreover have "band (deviation rounding_outlier) = 4"
    by (simp add: rounding_outlier_def band_def band_size_def py_floordiv_def py_int_of_float_def)
  moreover have "\<bar>- 395 / 100 - 5\<bar> / (179 / 100) = SIGMA_THRESHOLD"
    by (simp add: SIGMA_THRESHOLD_def)
  moreover have "\<bar>rec_value rounding_outlier - mean rounding_outlier\<bar> / fl (179 / 100) = SIGMA_THRESHOLD"
    by (simp add: rounding_outlier_def SIGMA_THRESHOLD_def fl_defs)
  moreover have "5 - SIGMA_THRESHOLD * (179 / 100) \<le> - 395 / 100"
    "- 395 / 100 \<le> 5 + SIGMA_THRESHOLD * (179 / 100)"
    by (simp_all add: SIGMA_THRESHOLD_def)
  moreover have "mean rounding_outlier - SIGMA_THRESHOLD * fl (179 / 100) \<le> rec_value rounding_outlier"
    "rec_value rounding_outlier \<le> mean rounding_outlier + SIGMA_THRESHOLD * fl (179 / 100)"
    by (simp_all add: rounding_outlier_def SIGMA_THRESHOLD_def fl_defs)
  ultimately show ?thesis by blast
qed

text \<open>
  Claim C2. For a source that passes the statistics checks, the scan appends the records
  of exactly those fetched out-of-bounds rows whose formatted value does not occur more
  than \<^verbatim>\<open>total_samples * FREQUENCY_THRESHOLD\<close> times among the fetched rows of that source:
  a fetched row is discarded if and only if its count strictly exceeds the product, where
  \<^verbatim>\<open>FREQUENCY_THRESHOLD\<close> is 0.01. With 1000 samples a value that occurs 11 times is
  discarded and one that occurs 9 times is kept.
\<close>

theorem frequency_filter:
  assumes "stats_of db (cand_metadata_id c) = Some st"
    and "\<not> cnt st < min_samples"
    and "mean_val st = Some mean_d"
    and "std_val st = Some std_d"
    and "std_d \<noteq> 0"
    and "mean_v = fl mean_d"
    and "std_v = fl std_d"
    and "lower = fl (mean_v - fl (SIGMA_THRESHOLD * std_v))"
    and "upper = fl (mean_v + fl (SIGMA_THRESHOLD * std_v))"
    and "rows = fetch_outlier_rows db (cand_metadata_id c) lower upper"
    and "kept = filter (\<lambda>r. \<not> real (value_counts fmt rows (fmt (numeric_value r))) > real_of_int (cnt st) * FREQUENCY_THRESHOLD) rows"
  shows "scan_candidate fmt min_samples db c acc =
           Inr (acc @ map (make_outlier (cand_metadata_id c) (cand_entity_id c) (cnt st) mean_v std_v lower upper) kept)
     \<and> FREQUENCY_THRESHOLD = 1 / 100
     \<and> (\<forall>r\<in>set rows. r \<notin> set kept \<longleftrightarrow>
           real (count_list (map (\<lambda>r. fmt (numeric_value r)) rows) (fmt (numeric_value r))) > real_of_int (cnt st) * FREQUENCY_THRESHOLD)
     \<and> (\<forall>r\<in>set rows. cnt st = 1000 \<longrightarrow>
          (value_counts fmt rows (fmt (numeric_value r)) = 11 \<longrightarrow> r \<notin> set kept) \<and>
          (value_counts fmt rows (fmt (numeric_value r)) = 9 \<longrightarrow> r \<in> set kept))"
proof -
  have "scan_candidate fmt min_samples db c acc =
           Inr (acc @ map (make_outlier (cand_metadata_id c) (cand_entity_id c) (cnt st) mean_v std_v lower upper) kept)"
    using scan_candidate_qualified [OF assms(1-5), of fmt acc] assms(6-11) by (simp add: kept_rows_def)
  moreover have "\<forall>r\<in>set rows. r \<notin> set kept \<longleftrightarrow>
           real (count_list (map (\<lambda>r. fmt (numeric_value r)) rows) (fmt (numeric_value r))) > real_of_int (cnt st) * FREQUENCY_THRESHOLD"
    by (simp add: assms(11) value_counts_def)
  moreover have "\<forall>r\<in>set rows. cnt st = 1000 \<longrightarrow>
          (value_counts fmt rows (fmt (numeric_value r)) = 11 \<longrightarrow> r \<notin> set kept) \<and>
          (value_counts fmt rows (fmt (numeric_value r)) = 9 \<longrightarrow> r \<in> set kept)"
    by (simp add: assms(11) FREQUENCY_THRESHOLD_def)
  ultimately show ?thesis by (simp add: FREQUENCY_THRESHOLD_def)
qed

lemma upt_11: "[0..<11] = [0,1,2,3,4,5,6,7,8,9,10::nat]"
  by (simp add: upt_rec)
lemma upt_11_20: "[11..<20] = [11,12,13,14,15,16,17,18,19::nat]"
  by (simp add: upt_rec)

lemma frequency_rows:
  "fetch_outlier_rows frequency_db 1 15 25 =
     map (\<lambda>i. \<lparr>state_id = i, numeric_value = 50, last_updated_ts = None\<rparr>) [0..<11]
            @ map (\<lambda>i. \<lparr>state_id = i, numeric_value = - 10, last_updated_ts = None\<rparr>) [11..<20]"
  by (simp add: fetch_outlier_rows_def frequency_db_def)

theorem frequency_filter_witness:
  "scan_candidate example_fmt MIN_SAMPLES frequency_db
      \<lparr>cand_metadata_id = 1, cand_entity_id = ''sensor.t'', recent_state = Some 21\<rparr> [] =
     Inr (map (make_outlier 1 ''sensor.t'' 1000 20 1 15 25)
            (map (\<lambda>i. \<lparr>state_id = i, numeric_value = - 10, last_updated_ts = None\<rparr>) [11..<20]))"
proof -
  have "scan_candidate example_fmt MIN_SAMPLES frequency_db
      \<lparr>cand_metadata_id = 1, cand_entity_id = ''sensor.t'', recent_state = Some 21\<rparr> [] =
     Inr ([] @ map (make_outlier (cand_metadata_id \<lparr>cand_metadata_id = 1, cand_entity_id = ''sensor.t'', recent_state = Some 21\<rparr>)
            (cand_entity_id \<lparr>cand_metadata_id = 1, cand_entity_id = ''sensor.t'', recent_state = Some 21\<rparr>)
            (cnt \<lparr>cnt = 1000, mean_val = Some 20, std_val = Some 1\<rparr>) 20 1 15 25)
           (filter (\<lambda>r. \<not> real (value_counts example_fmt (fetch_outlier_rows frequency_db 1 15 25) (example_fmt (numeric_value r)))
                > real_of_int (cnt \<lparr>cnt = 1000, mean_val = Some 20, std_val = Some 1\<rparr>) * FREQUENCY_THRESHOLD)
              (fetch_outlier_rows frequency_db 1 15 25)))"
    using frequency_filter [where db = frequency_db
         and c = "\<lparr>cand_metadata_id = 1, cand_entity_id = ''sensor.t'', recent_state = Some 21\<rparr>"
         and st = "\<lparr>cnt = 1000, mean_val = Some 20, std_val = Some 1\<rparr>" and min_samples = MIN_SAMPLES
         and mean_d = 20 and std_d = 1 and mean_v = 20 and std_v = 1 and lower = 15 and upper = 25
         and rows = "fetch_outlier_rows frequency_db 1 15 25" and fmt = example_fmt and acc = "[]"]
    by (simp add: frequency_db_def MIN_SAMPLES_def SIGMA_THRESHOLD_def fl_exact_examples)
  then show ?thesis
    unfolding frequency_rows upt_11 upt_11_20
    by (simp add: value_counts_def example_fmt_def FREQUENCY_THRESHOLD_def)
qed

section \<open>Grouping: properties\<close>

lemma py_int_of_float_of_int: "py_int_of_float (of_int n) = n"
  by (simp add: py_int_of_float_def)

lemma band_floor: "band dev = \<lfloor>dev / of_int (band_size dev)\<rfloor> * band_size dev"
  by (simp add: band_def py_floordiv_def py_int_of_float_of_int)

lemma outlier_key_truncate: "outlier_key (outlier.truncate g) = outlier_key g"
  by (simp add: outlier_key_def direction_def outlier.defs)

lemma truncate_new_group: "outlier.truncate (new_group x) = x"
  by (simp add: new_group_def outlier.defs)

lemma truncate_merge_outlier: "outlier.truncate (merge_outlier x g) = outlier.truncate g"
  by (simp add: merge_outlier_def outlier.defs)

lemma built_from_new_group: "built_from [x] (new_group x)"
  by (simp add: built_from_def truncate_new_group) (simp add: new_group_def outlier.defs)

lemma built_from_merge:
  assumes "built_from ms g"
  shows "built_from (ms @ [x]) (merge_outlier x g)"
proof -
  from assms have ne: "ms \<noteq> []" by (simp add: built_from_def)
  then have fin: "finite (set (map rec_value ms))" "set (map rec_value ms) \<noteq> {}" by simp_all
  have mn: "Min (set (map rec_value (ms @ [x]))) = min (Min (set (map rec_value ms))) (rec_value x)"
    using Min_insert [OF fin, of "rec_value x"] by (simp add: min.commute)
  have mx: "Max (set (map rec_value (ms @ [x]))) = max (Max (set (map rec_value ms))) (rec_value x)"
    using Max_insert [OF fin, of "rec_value x"] by (simp add: max.commute)
  from assms ne show ?thesis
    unfolding built_from_def truncate_merge_outlier mn mx
    by (simp add: merge_outlier_def)
qed

lemma map_fst_dict_update: "map fst (dict_update k f kvs) = map fst kvs"
  by (induction kvs) auto

lemma set_dict_update:
  assumes "distinct (map fst kvs)" and "(k', v') \<in> set (dict_update k f kvs)"
  shows "(k' = k \<and> (\<exists>v. (k, v) \<in> set kvs \<and> v' = f v)) \<or> (k' \<noteq> k \<and> (k', v') \<in> set kvs)"
  using assms
proof (induction kvs)
  case Nil
  then show ?case by simp
next
  case (Cons kv kvs)
  obtain a b where kv: "kv = (a, b)" by (cases kv)
  show ?case
  proof (cases "k = a")
    case True
    with Cons.prems kv show ?thesis by (auto simp add: rev_image_eqI)
  next
    case False
    with Cons kv show ?thesis by auto
  qed
qed

lemma members_of_snoc:
  "members_of k (xs @ [x]) = (if outlier_key x = k then members_of k xs @ [x] else members_of k xs)"
  by (simp add: members_of_def)

lemma members_of_empty_iff: "members_of k xs = [] \<longleftrightarrow> k \<notin> outlier_key ` set xs"
  by (auto simp add: members_of_def filter_empty_conv)

lemma groups_inv_step:
  assumes "groups_inv xs gs"
  shows "groups_inv (xs @ [x]) (add_outlier gs x)"
proof (cases "map_of gs (outlier_key x) = None")
  case True
  then have new: "outlier_key x \<notin> set (map fst gs)" by (simp add: map_of_eq_None_iff)
  from True have eq: "add_outlier gs x = gs @ [(outlier_key x, new_group x)]"
    by (simp add: add_outlier_def Let_def)
  from assms have d: "distinct (map fst gs)" and s: "set (map fst gs) = outlier_key ` set xs"
    and b: "\<And>k g. (k, g) \<in> set gs \<Longrightarrow> built_from (members_of k xs) g"
    by (auto simp add: groups_inv_def)
  from new s have "members_of (outlier_key x) xs = []"
    by (simp add: members_of_empty_iff)
  then have 1: "built_from (members_of (outlier_key x) (xs @ [x])) (new_group x)"
    by (simp add: members_of_snoc built_from_new_group)
  have 2: "built_from (members_of k (xs @ [x])) g" if "(k, g) \<in> set gs" for k g
  proof -
    from that new have "k \<noteq> outlier_key x" by force
    with b [OF that] show ?thesis by (simp add: members_of_snoc)
  qed
  have "distinct (map fst (gs @ [(outlier_key x, new_group x)]))"
    using d new by simp
  moreover have "set (map fst (gs @ [(outlier_key x, new_group x)])) = outlier_key ` set (xs @ [x])"
    using s by simp
  moreover have "\<forall>(k, g)\<in>set (gs @ [(outlier_key x, new_group x)]). built_from (members_of k (xs @ [x])) g"
    using 1 2 by auto
  ultimately show ?thesis unfolding eq groups_inv_def by blast
next
  case False
  then have old: "outlier_key x \<in> set (map fst gs)" by (simp add: map_of_eq_None_iff)
  from False have eq: "add_outlier gs x = dict_update (outlier_key x) (merge_outlier x) gs"
    by (auto simp add: add_outlier_def Let_def)
  from assms have d: "distinct (map fst gs)" and s: "set (map fst gs) = outlier_key ` set xs"
    and b: "\<And>k g. (k, g) \<in> set gs \<Longrightarrow> built_from (members_of k xs) g"
    by (auto simp add: groups_inv_def)
  have 3: "built_from (members_of k (xs @ [x])) g"
    if "(k, g) \<in> set (dict_update (outlier_key x) (merge_outlier x) gs)" for k g
    using set_dict_update [OF d that]
  proof
    assume "k = outlier_key x \<and> (\<exists>v. (outlier_key x, v) \<in> set gs \<and> g = merge_outlier x v)"
    then obtain v where k: "k = outlier_key x" and v: "(outlier_key x, v) \<in> set gs" and g: "g = merge_outlier x v"
      by blast
    from b [OF v] show ?thesis unfolding k g by (simp add: members_of_snoc built_from_merge)
  next
    assume "k \<noteq> outlier_key x \<and> (k, g) \<in> set gs"
    then have "k \<noteq> outlier_key x" and "built_from (members_of k xs) g" using b by blast+
    then show ?thesis by (auto simp add: members_of_snoc)
  qed
  have "distinct (map fst (dict_update (outlier_key x) (merge_outlier x) gs))"
    using d by (simp only: map_fst_dict_update)
  moreover have "set (map fst (dict_update (outlier_key x) (merge_outlier x) gs)) = outlier_key ` set (xs @ [x])"
    using s old unfolding map_fst_dict_update by auto
  moreover have "\<forall>(k, g)\<in>set (dict_update (outlier_key x) (merge_outlier x) gs). built_from (members_of k (xs @ [x])) g"
    using 3 by auto
  ultimately show ?thesis unfolding eq groups_inv_def by blast
qed

lemma groups_inv_foldl: "groups_inv xs (foldl add_outlier [] xs)"
proof (induction xs rule: rev_induct)
  case Nil
  show ?case by (simp add: groups_inv_def)
next
  case (snoc x xs)
  then show ?case by (simp add: groups_inv_step)
qed


lemma set_group_outliers: "set (group_outliers xs) = snd ` set (foldl add_outlier [] xs)"
  by (simp add: group_outliers_def sorted_desc_def)

lemma built_from_key:
  assumes "built_from (members_of k xs) g"
  shows "outlier_key g = k"
proof -
  from assms have ne: "members_of k xs \<noteq> []" and tr: "outlier.truncate g = hd (members_of k xs)"
    by (simp_all add: built_from_def)
  from ne have "hd (members_of k xs) \<in> set (members_of k xs)" by simp
  then have "outlier_key (hd (members_of k xs)) = k" by (simp add: members_of_def)
  with tr outlier_key_truncate [of g] show ?thesis by simp
qed

lemma foldl_entry_key:
  assumes "(k, g) \<in> set (foldl add_outlier [] xs)"
  shows "outlier_key g = k"
proof -
  from groups_inv_foldl [of xs] assms have "built_from (members_of k xs) g"
    unfolding groups_inv_def by blast
  then show ?thesis by (rule built_from_key)
qed

lemma group_outliers_built:
  assumes "g \<in> set (group_outliers xs)"
  shows "built_from (members_of (outlier_key g) xs) g"
proof -
  from assms obtain k where kg: "(k, g) \<in> set (foldl add_outlier [] xs)"
    by (auto simp add: set_group_outliers)
  with groups_inv_foldl [of xs] have "built_from (members_of k xs) g"
    unfolding groups_inv_def by blast
  with foldl_entry_key [OF kg] show ?thesis by simp
qed

lemma map_key_foldl: "map (outlier_key \<circ> snd) (foldl add_outlier [] xs) = map fst (foldl add_outlier [] xs)"
proof (rule map_cong [OF refl])
  fix kg assume "kg \<in> set (foldl add_outlier [] xs)"
  then have "(fst kg, snd kg) \<in> set (foldl add_outlier [] xs)" by simp
  then have "outlier_key (snd kg) = fst kg" by (rule foldl_entry_key)
  then show "(outlier_key \<circ> snd) kg = fst kg" by simp
qed

lemma mset_group_keys:
  "mset (map outlier_key (group_outliers xs)) = mset (map fst (foldl add_outlier [] xs))"
proof -
  have "mset (map outlier_key (group_outliers xs)) = image_mset outlier_key (mset (group_outliers xs))"
    by simp
  also have "\<dots> = image_mset outlier_key (mset (map snd (foldl add_outlier [] xs)))"
    by (simp add: group_outliers_def sorted_desc_def)
  also have "\<dots> = mset (map (outlier_key \<circ> snd) (foldl add_outlier [] xs))"
    by (simp add: image_mset.compositionality)
  finally show ?thesis by (simp only: map_key_foldl)
qed

lemma distinct_group_keys: "distinct (map outlier_key (group_outliers xs))"
proof -
  have "distinct (map fst (foldl add_outlier [] xs))"
    using groups_inv_foldl [of xs] by (simp add: groups_inv_def)
  with mset_group_keys [of xs] show ?thesis
    by (metis mset_eq_imp_distinct_iff)
qed

lemma set_group_keys: "outlier_key ` set (group_outliers xs) = outlier_key ` set xs"
proof -
  have "set (map outlier_key (group_outliers xs)) = set (map fst (foldl add_outlier [] xs))"
    using mset_group_keys [of xs] by (rule mset_eq_setD)
  with groups_inv_foldl [of xs] show ?thesis by (simp add: groups_inv_def)
qed


lemma zip_member_lists:
  "zip (map rec_id ms) (zip (map timestamp ms) (map rec_value ms)) =
     map (\<lambda>x. (rec_id x, timestamp x, rec_value x)) ms"
  by (induction ms) simp_all

lemma sum_list_indicator_absent:
  "a \<notin> set ks \<Longrightarrow> (\<Sum>k\<leftarrow>ks. if a = k then 1 else 0) = (0::nat)"
  by (induction ks) auto

lemma sum_list_indicator_distinct:
  "distinct ks \<Longrightarrow> a \<in> set ks \<Longrightarrow> (\<Sum>k\<leftarrow>ks. if a = k then 1 else 0) = (1::nat)"
  by (induction ks) (auto simp add: sum_list_indicator_absent)

lemma length_partition:
  assumes "distinct ks" and "f ` set xs \<subseteq> set ks"
  shows "(\<Sum>k\<leftarrow>ks. length (filter (\<lambda>x. f x = k) xs)) = length xs"
  using assms(2)
proof (induction xs)
  case Nil
  show ?case by simp
next
  case (Cons x xs)
  then have IH: "(\<Sum>k\<leftarrow>ks. length (filter (\<lambda>x. f x = k) xs)) = length xs"
    and x: "f x \<in> set ks" by simp_all
  have "(\<Sum>k\<leftarrow>ks. length (filter (\<lambda>y. f y = k) (x # xs))) =
        (\<Sum>k\<leftarrow>ks. (if f x = k then 1 else 0) + length (filter (\<lambda>y. f y = k) xs))"
    by (rule arg_cong [where f = sum_list]) (rule map_cong, simp_all)
  also have "\<dots> = (\<Sum>k\<leftarrow>ks. if f x = k then 1 else 0) + (\<Sum>k\<leftarrow>ks. length (filter (\<lambda>y. f y = k) xs))"
    by (simp add: sum_list_addf)
  also have "\<dots> = 1 + length xs"
    using sum_list_indicator_distinct [OF assms(1) x] IH by simp
  finally show ?case by simp
qed

lemma sum_member_counts: "sum_list (map member_count (group_outliers xs)) = length xs"
proof -
  let ?gs = "foldl add_outlier [] xs"
  from groups_inv_foldl [of xs] have d: "distinct (map fst ?gs)"
    and s: "set (map fst ?gs) = outlier_key ` set xs"
    and b: "\<And>k g. (k, g) \<in> set ?gs \<Longrightarrow> built_from (members_of k xs) g"
    unfolding groups_inv_def by blast+
  have "sum_list (map member_count (group_outliers xs)) = sum_mset (image_mset member_count (mset (group_outliers xs)))"
    by (metis mset_map sum_mset_sum_list)
  also have "\<dots> = sum_mset (image_mset member_count (mset (map snd ?gs)))"
    by (simp add: group_outliers_def sorted_desc_def)
  also have "\<dots> = sum_list (map member_count (map snd ?gs))"
    by (metis mset_map sum_mset_sum_list)
  also have "\<dots> = sum_list (map (\<lambda>kg. length (members_of (fst kg) xs)) ?gs)"
  proof -
    have "map member_count (map snd ?gs) = map (\<lambda>kg. length (members_of (fst kg) xs)) ?gs"
      unfolding map_map
    proof (rule map_cong [OF refl])
      fix kg assume "kg \<in> set ?gs"
      then have "(fst kg, snd kg) \<in> set ?gs" by simp
      from b [OF this] show "(member_count \<circ> snd) kg = length (members_of (fst kg) xs)"
        by (simp add: built_from_def)
    qed
    then show ?thesis by (rule arg_cong)
  qed
  also have "\<dots> = (\<Sum>k\<leftarrow>map fst ?gs. length (filter (\<lambda>x. outlier_key x = k) xs))"
    by (simp add: members_of_def comp_def)
  also have "\<dots> = length xs"
    using d s by (intro length_partition) simp_all
  finally show ?thesis .
qed

lemma example_grouping: "group_outliers example_outliers = example_groups"
  by (simp add: group_outliers_def example_outliers_def example_groups_def add_outlier_def
      outlier_key_def band_def band_size_def py_floordiv_def py_int_of_float_def direction_def
      new_group_def merge_outlier_def outlier.defs sorted_desc_def Let_def)


lemma example_group_keys:
  "map outlier_key example_groups = [(''sensor.t'', 20, ''above''), (''sensor.t'', 7, ''below'')]"
  by (simp add: example_groups_def outlier_key_def band_def band_size_def py_floordiv_def
      py_int_of_float_def direction_def)

text \<open>
  Claim C3. For every outlier record the band width is 1 for a deviation below 10, else 2
  for a deviation below 20, else 5, and the band of the record's group key is
  \<open>floor (deviation / width) * width\<close>; the grouping returns a group with that source,
  band and direction for every input record. Deviation 7.2 gives band 7, deviation 14.7
  gives band 14 and deviation 23.0 gives band 20.
\<close>

theorem band_assignment:
  "band_size (deviation x) = (if deviation x < 10 then 1 else if deviation x < 20 then 2 else 5)
   \<and> band (deviation x) = \<lfloor>deviation x / of_int (band_size (deviation x))\<rfloor> * band_size (deviation x)
   \<and> outlier_key x = (entity_id x, band (deviation x), direction x)
   \<and> (\<forall>y\<in>set outliers. \<exists>g\<in>set (group_outliers outliers).
          outlier_key g =
            (entity_id y, \<lfloor>deviation y / of_int (band_size (deviation y))\<rfloor> * band_size (deviation y),
             direction y))
   \<and> band (72 / 10) = 7 \<and> band_size (72 / 10) = 1
   \<and> band (147 / 10) = 14 \<and> band_size (147 / 10) = 2
   \<and> band 23 = 20 \<and> band_size 23 = 5"
proof -
  have "\<exists>g\<in>set (group_outliers outliers).
          outlier_key g =
            (entity_id y, \<lfloor>deviation y / of_int (band_size (deviation y))\<rfloor> * band_size (deviation y),
             direction y)"
    if "y \<in> set outliers" for y
  proof -
    from that have "outlier_key y \<in> outlier_key ` set (group_outliers outliers)"
      by (simp add: set_group_keys)
    then obtain g where "g \<in> set (group_outliers outliers)" and "outlier_key g = outlier_key y"
      by force
    then show ?thesis by (auto simp add: outlier_key_def band_floor)
  qed
  moreover have "band (72 / 10) = 7 \<and> band_size (72 / 10) = 1
     \<and> band (147 / 10) = 14 \<and> band_size (147 / 10) = 2
     \<and> band 23 = 20 \<and> band_size 23 = 5"
    by (simp add: band_floor) (simp add: band_size_def)
  moreover have "band_size (deviation x) = (if deviation x < 10 then 1 else if deviation x < 20 then 2 else 5)"
    by (simp add: band_size_def)
  ultimately show ?thesis by (simp add: band_floor outlier_key_def)
qed

theorem band_assignment_witness:
  "group_outliers example_outliers = example_groups
   \<and> map deviation example_outliers = [223 / 10, 21, 72 / 10]
   \<and> map (band_size \<circ> deviation) example_outliers = [5, 5, 1]
   \<and> map (band \<circ> deviation) example_outliers = [20, 20, 7]
   \<and> (\<exists>g\<in>set example_groups. outlier_key g = (''sensor.t'', 7, ''below''))"
proof -
  have y: "example_outliers ! 2 \<in> set example_outliers"
    by (simp add: example_outliers_def)
  from band_assignment [of "example_outliers ! 2" example_outliers] y
  have "\<exists>g\<in>set (group_outliers example_outliers).
          outlier_key g =
            (entity_id (example_outliers ! 2),
             \<lfloor>deviation (example_outliers ! 2) / of_int (band_size (deviation (example_outliers ! 2)))\<rfloor>
               * band_size (deviation (example_outliers ! 2)),
             direction (example_outliers ! 2))"
    by blast
  moreover have "entity_id (example_outliers ! 2) = ''sensor.t''"
    "direction (example_outliers ! 2) = ''below''"
    "\<lfloor>deviation (example_outliers ! 2) / of_int (band_size (deviation (example_outliers ! 2)))\<rfloor>
               * band_size (deviation (example_outliers ! 2)) = 7"
    by (simp_all add: example_outliers_def direction_def band_size_def)
  ultimately have "\<exists>g\<in>set example_groups. outlier_key g = (''sensor.t'', 7, ''below'')"
    by (simp only: example_grouping)
  moreover have "map deviation example_outliers = [223 / 10, 21, 72 / 10]"
    "map (band_size \<circ> deviation) example_outliers = [5, 5, 1]"
    "map (band \<circ> deviation) example_outliers = [20, 20, 7]"
    by (simp_all add: example_outliers_def band_floor) (simp_all add: band_size_def)
  ultimately show ?thesis using example_grouping by blast
qed

text \<open>
  Claim C4. In every group that \<^verbatim>\<open>group_outliers\<close> returns, the count equals the lengths of
  the lists of member ids, member timestamps and member values, and every member value
  lies between \<open>min_value\<close> and \<open>max_value\<close>. The keys (source, band, direction) of the
  groups are pairwise distinct. Every input record is a member of exactly one group (the
  group of its key holds its id, timestamp and value), and the member counts add up to the
  number of input records.
\<close>

theorem group_outliers_invariants:
  "(\<forall>g\<in>set (group_outliers outliers).
       member_count g = length (ids g) \<and>
       member_count g = length (timestamps g) \<and>
       member_count g = length (member_values g) \<and>
       (\<forall>v\<in>set (member_values g). min_value g \<le> v \<and> v \<le> max_value g))
   \<and> distinct (map outlier_key (group_outliers outliers))
   \<and> (\<forall>x\<in>set outliers. \<exists>!g. g \<in> set (group_outliers outliers) \<and> outlier_key g = outlier_key x \<and>
          (rec_id x, timestamp x, rec_value x) \<in> set (zip (ids g) (zip (timestamps g) (member_values g))))
   \<and> sum_list (map member_count (group_outliers outliers)) = length outliers"
proof -
  have 1: "member_count g = length (ids g) \<and>
       member_count g = length (timestamps g) \<and>
       member_count g = length (member_values g) \<and>
       (\<forall>v\<in>set (member_values g). min_value g \<le> v \<and> v \<le> max_value g)"
    if "g \<in> set (group_outliers outliers)" for g
    using group_outliers_built [OF that] by (simp add: built_from_def)
  have 3: "\<exists>!g. g \<in> set (group_outliers outliers) \<and> outlier_key g = outlier_key x \<and>
          (rec_id x, timestamp x, rec_value x) \<in> set (zip (ids g) (zip (timestamps g) (member_values g)))"
    if x: "x \<in> set outliers" for x
  proof -
    from x have "outlier_key x \<in> outlier_key ` set (group_outliers outliers)"
      by (simp add: set_group_keys)
    then obtain g where g: "g \<in> set (group_outliers outliers)" and k: "outlier_key g = outlier_key x"
      by force
    from group_outliers_built [OF g] k have b: "built_from (members_of (outlier_key x) outliers) g"
      by simp
    from x have "x \<in> set (members_of (outlier_key x) outliers)" by (simp add: members_of_def)
    then have "(rec_id x, timestamp x, rec_value x) \<in> set (zip (ids g) (zip (timestamps g) (member_values g)))"
      using b by (auto simp add: built_from_def zip_member_lists)
    moreover have "g' = g" if "g' \<in> set (group_outliers outliers)" "outlier_key g' = outlier_key x" for g'
      using distinct_group_keys [of outliers] that g k
      by (auto simp add: distinct_map inj_on_def)
    ultimately show ?thesis using g k by blast
  qed
  from 1 3 distinct_group_keys [of outliers] sum_member_counts [of outliers] show ?thesis by blast
qed

theorem group_outliers_invariants_witness:
  "group_outliers example_outliers = example_groups
   \<and> map member_count example_groups = [2, 1]
   \<and> map (length \<circ> ids) example_groups = [2, 1]
   \<and> map (length \<circ> timestamps) example_groups = [2, 1]
   \<and> map (length \<circ> member_values) example_groups = [2, 1]
   \<and> map outlier_key example_groups = [(''sensor.t'', 20, ''above''), (''sensor.t'', 7, ''below'')]
   \<and> distinct (map outlier_key example_groups)
   \<and> sum_list (map member_count example_groups) = length example_outliers"
proof -
  from group_outliers_invariants [of example_outliers]
  have "distinct (map outlier_key (group_outliers example_outliers))"
    and "sum_list (map member_count (group_outliers example_outliers)) = length example_outliers"
    by blast+
  then have "distinct (map outlier_key example_groups)"
    and "sum_list (map member_count example_groups) = length example_outliers"
    by (simp_all only: example_grouping)
  moreover have "map member_count example_groups = [2, 1]"
    "map (length \<circ> ids) example_groups = [2, 1]"
    "map (length \<circ> timestamps) example_groups = [2, 1]"
    "map (length \<circ> member_values) example_groups = [2, 1]"
    by (simp_all add: example_groups_def)
  ultimately show ?thesis using example_grouping example_group_keys by blast
qed

lemma find_filter_hd: "filter P xs \<noteq> [] \<Longrightarrow> find P xs = Some (hd (filter P xs))"
  by (induction xs) auto

lemma truncate_fields:
  assumes "outlier.truncate g = y"
  shows "deviation g = deviation y \<and> mean g = mean y \<and> lower_bound g = lower_bound y \<and>
         upper_bound g = upper_bound y \<and> total_samples g = total_samples y \<and>
         rec_id g = rec_id y \<and> rec_value g = rec_value y \<and> entity_id g = entity_id y \<and>
         metadata_id g = metadata_id y \<and> timestamp g = timestamp y"
  using assms by (auto simp add: outlier.defs)

lemma sorted_desc_sorted: "sorted_wrt (\<lambda>a b. k a \<ge> k b) (sorted_desc k xs)"
proof -
  have "sorted (map (\<lambda>x. - k x) (sort_key (\<lambda>x. - k x) xs))" by (rule sorted_sort_key)
  then show ?thesis by (simp add: sorted_desc_def sorted_map)
qed

lemma sorted_wrt_hd_filter:
  assumes "sorted_wrt (\<lambda>a b. (k a :: real) \<ge> k b) xs" and "x \<in> set (filter P xs)"
  shows "k x \<le> k (hd (filter P xs))"
proof -
  from assms(1) have s: "sorted_wrt (\<lambda>a b. k a \<ge> k b) (filter P xs)" by (rule sorted_wrt_filter)
  from assms(2) obtain m ms where ms: "filter P xs = m # ms" by (cases "filter P xs") auto
  with s assms(2) show ?thesis by auto
qed

text \<open>
  Claim C5. When the input of \<^verbatim>\<open>group_outliers\<close> is sorted descending by deviation, the
  representative fields of every group (deviation, mean, bounds, total samples) are those
  of the first input record with the group's key, that record is the group's first member
  and no record of that key has a higher deviation; the returned list is sorted descending
  by the representative deviation.
\<close>

theorem group_representative:
  assumes "sorted_wrt (\<lambda>a b. deviation a \<ge> deviation b) outliers"
  shows "(\<forall>g\<in>set (group_outliers outliers).
            \<exists>first. find (\<lambda>x. outlier_key x = outlier_key g) outliers = Some first \<and>
              deviation g = deviation first \<and> mean g = mean first \<and>
              lower_bound g = lower_bound first \<and> upper_bound g = upper_bound first \<and>
              total_samples g = total_samples first \<and>
              hd (ids g) = rec_id first \<and>
              (\<forall>x\<in>set outliers. outlier_key x = outlier_key g \<longrightarrow> deviation x \<le> deviation g))
     \<and> sorted_wrt (\<lambda>a b. deviation a \<ge> deviation b) (group_outliers outliers)"
proof -
  have "\<exists>first. find (\<lambda>x. outlier_key x = outlier_key g) outliers = Some first \<and>
              deviation g = deviation first \<and> mean g = mean first \<and>
              lower_bound g = lower_bound first \<and> upper_bound g = upper_bound first \<and>
              total_samples g = total_samples first \<and>
              hd (ids g) = rec_id first \<and>
              (\<forall>x\<in>set outliers. outlier_key x = outlier_key g \<longrightarrow> deviation x \<le> deviation g)"
    if g: "g \<in> set (group_outliers outliers)" for g
  proof -
    let ?ms = "members_of (outlier_key g) outliers"
    from group_outliers_built [OF g] have ne: "?ms \<noteq> []" and tr: "outlier.truncate g = hd ?ms"
      and i: "ids g = map rec_id ?ms"
      by (simp_all add: built_from_def)
    from ne have f: "find (\<lambda>x. outlier_key x = outlier_key g) outliers = Some (hd ?ms)"
      unfolding members_of_def by (rule find_filter_hd)
    from i ne have h: "hd (ids g) = rec_id (hd ?ms)" by (simp add: hd_map)
    have "deviation x \<le> deviation g" if "x \<in> set outliers" "outlier_key x = outlier_key g" for x
    proof -
      from that have "x \<in> set (filter (\<lambda>x. outlier_key x = outlier_key g) outliers)" by simp
      from sorted_wrt_hd_filter [OF assms this] truncate_fields [OF tr]
      show ?thesis by (simp add: members_of_def)
    qed
    with f h truncate_fields [OF tr] show ?thesis by blast
  qed
  moreover have "sorted_wrt (\<lambda>a b. deviation a \<ge> deviation b) (group_outliers outliers)"
    unfolding group_outliers_def by (rule sorted_desc_sorted)
  ultimately show ?thesis by blast
qed

lemma example_sorted: "sorted_wrt (\<lambda>a b. deviation a \<ge> deviation b) example_outliers"
  by (simp add: example_outliers_def)

theorem group_representative_witness:
  "sorted_wrt (\<lambda>a b. deviation a \<ge> deviation b) example_outliers
   \<and> group_outliers example_outliers = example_groups
   \<and> map deviation example_groups = [223 / 10, 72 / 10]
   \<and> sorted_wrt (\<lambda>a b. deviation a \<ge> deviation b) example_groups"
proof -
  from group_representative [OF example_sorted]
  have "sorted_wrt (\<lambda>a b. deviation a \<ge> deviation b) (group_outliers example_outliers)"
    by blast
  then have "sorted_wrt (\<lambda>a b. deviation a \<ge> deviation b) example_groups"
    by (simp only: example_grouping)
  moreover have "map deviation example_groups = [223 / 10, 72 / 10]"
    by (simp add: example_groups_def)
  ultimately show ?thesis using example_sorted example_grouping by blast
qed

text \<open>The scan returns its records sorted descending by deviation: the input of the grouping in \<^verbatim>\<open>main\<close>.\<close>

lemma find_outliers_sorted:
  assumes "find_outliers_in_states fmt min_samples db = Inr outliers"
  shows "sorted_wrt (\<lambda>a b. deviation a \<ge> deviation b) outliers"
proof -
  from assms obtain acc where "outliers = sorted_desc deviation acc"
    by (auto simp add: find_outliers_in_states_def split: sum.splits)
  then show ?thesis by (simp add: sorted_desc_sorted)
qed

section \<open>The review session: properties\<close>

lemmas session_defs = main_body_def mutate_def edit_outlier_def delete_outlier_def
  edit_transaction_def delete_transaction_def rollback_return_False_def
  db_cursor_def db_execute_def db_commit_def db_rollback_def db_connect_def next_outcome_def
  update_state_def clear_old_state_def delete_states_def PAGE_SIZE_def

lemmas example_defs = example_session_def example_table_def example_groups_def reviewed_groups_def

lemmas parse_defs = py_int_def py_strip_def is_space_def is_c_space_def unsigned_value_def digit_of_def

lemma ed_not_npq:
  assumes "choice \<noteq> []" and "hd choice \<in> set ''ed''"
  shows "choice \<noteq> ''n''" "choice \<noteq> ''p''" "choice \<noteq> ''q''"
  using assms by auto

lemma display_step_ed:
  assumes "choice \<noteq> []" and "hd choice \<in> set ''ed''"
  shows "display_step outliers total_pages page choice =
     (case py_int (py_strip (tl choice)) of
        None \<Rightarrow> Continue page
      | Some num \<Rightarrow>
          if 1 \<le> num \<and> num \<le> int (length outliers) \<and> \<not> removed (outliers ! nat (num - 1))
          then Selected (hd choice) (nat (num - 1)) (outliers ! nat (num - 1))
          else Continue page)"
  using assms ed_not_npq [OF assms] by (simp add: display_step_def)

lemma display_step_Selected:
  assumes "display_step outliers total_pages page choice = Selected a i g"
  shows "choice \<noteq> [] \<and> hd choice \<in> set ''ed'' \<and> a = hd choice \<and>
     (\<exists>num. py_int (py_strip (tl choice)) = Some num \<and> 1 \<le> num \<and> num \<le> int (length outliers) \<and>
         int i = num - 1) \<and>
     i < length outliers \<and> g = outliers ! i \<and> \<not> removed (outliers ! i)"
proof -
  from assms have ed: "choice \<noteq> []" "hd choice \<in> set ''ed''"
    by (auto simp add: display_step_def split: if_splits)
  from assms obtain num where n: "py_int (py_strip (tl choice)) = Some num"
    and ok: "1 \<le> num" "num \<le> int (length outliers)" "\<not> removed (outliers ! nat (num - 1))"
    and res: "a = hd choice" "i = nat (num - 1)" "g = outliers ! nat (num - 1)"
    unfolding display_step_ed [OF ed] by (auto split: option.splits if_splits)
  from ok res have i: "int i = num - 1" "i < length outliers" by auto
  from n ok(1,2) i(1)
  have "\<exists>num. py_int (py_strip (tl choice)) = Some num \<and> 1 \<le> num \<and> num \<le> int (length outliers) \<and>
         int i = num - 1"
    by blast
  with ed res i(2) ok(3) show ?thesis by simp
qed

text \<open>
  Claim C6. A reply is accepted as an edit or delete selection only if it is \<open>e\<close> or \<open>d\<close>
  followed by a number \<open>n\<close> with \<open>1 \<le> n \<le>\<close> the number of groups, counted in the whole
  list whatever the page and the page size, and the group at \<open>n\<close> is not removed; the
  selection is then the group at index \<open>n - 1\<close>. Any other reply that starts with \<open>e\<close> or
  \<open>d\<close> (no number, a number out of range, a removed group) raises nothing, leaves the page
  and the list as they are, and the prompt is shown again.
\<close>

theorem selection_validation:
  "(display_step outliers total_pages page choice = Selected a i g \<longrightarrow>
      (a = CHR ''e'' \<or> a = CHR ''d'') \<and> choice \<noteq> [] \<and> a = hd choice \<and>
      (\<exists>num. py_int (py_strip (tl choice)) = Some num \<and> 1 \<le> num \<and> num \<le> int (length outliers) \<and>
          int i = num - 1) \<and>
      i < length outliers \<and> g = outliers ! i \<and> \<not> removed (outliers ! i))
   \<and> (choice \<noteq> [] \<and> (hd choice = CHR ''e'' \<or> hd choice = CHR ''d'') \<and>
        (\<forall>num. py_int (py_strip (tl choice)) = Some num \<longrightarrow>
            num < 1 \<or> int (length outliers) < num \<or> removed (outliers ! nat (num - 1))) \<longrightarrow>
        display_step outliers total_pages page choice = Continue page \<and>
        display_loop outliers total_pages page (choice # rest) =
          display_loop outliers total_pages page rest)"
proof (intro conjI impI)
  assume "display_step outliers total_pages page choice = Selected a i g"
  from display_step_Selected [OF this]
  show "a = CHR ''e'' \<or> a = CHR ''d''" "choice \<noteq> []" "a = hd choice"
    "\<exists>num. py_int (py_strip (tl choice)) = Some num \<and> 1 \<le> num \<and> num \<le> int (length outliers) \<and> int i = num - 1"
    "i < length outliers" "g = outliers ! i" "\<not> removed (outliers ! i)"
    by auto
next
  assume a: "choice \<noteq> [] \<and> (hd choice = CHR ''e'' \<or> hd choice = CHR ''d'') \<and>
        (\<forall>num. py_int (py_strip (tl choice)) = Some num \<longrightarrow>
            num < 1 \<or> int (length outliers) < num \<or> removed (outliers ! nat (num - 1)))"
  then have ed: "choice \<noteq> []" "hd choice \<in> set ''ed''" by auto
  from a show c: "display_step outliers total_pages page choice = Continue page"
    unfolding display_step_ed [OF ed] by (auto split: option.splits)
  then show "display_loop outliers total_pages page (choice # rest) =
          display_loop outliers total_pages page rest"
    by simp
qed

theorem selection_validation_witness:
  "display_step reviewed_groups 1 0 ''d2'' = Selected CHR ''d'' 1 (reviewed_groups ! 1)
   \<and> \<not> removed (reviewed_groups ! 1)
   \<and> display_step reviewed_groups 1 0 ''e1'' = Continue 0
   \<and> display_step reviewed_groups 1 0 ''e3'' = Continue 0
   \<and> display_step reviewed_groups 1 0 ''e x'' = Continue 0
   \<and> display_loop reviewed_groups 1 0 [''e3'', ''q''] = display_loop reviewed_groups 1 0 [''q'']"
proof -
  have sel: "display_step reviewed_groups 1 0 ''d2'' = Selected CHR ''d'' 1 (reviewed_groups ! 1)"
    by (simp add: display_step_def parse_defs example_defs)
  with selection_validation [of reviewed_groups 1 0 "''d2''" "CHR ''d''" 1 "reviewed_groups ! 1"]
  have active: "\<not> removed (reviewed_groups ! 1)" by blast
  have removed_target: "display_step reviewed_groups 1 0 ''e1'' = Continue 0"
    using selection_validation [of reviewed_groups 1 0 "''e1''" _ _ _ "[]"]
    by (simp add: parse_defs example_defs)
  have out_of_range: "display_step reviewed_groups 1 0 ''e3'' = Continue 0
      \<and> display_loop reviewed_groups 1 0 [''e3'', ''q''] = display_loop reviewed_groups 1 0 [''q'']"
    using selection_validation [of reviewed_groups 1 0 "''e3''" _ _ _ "[''q'']"]
    by (simp add: parse_defs example_defs)
  have malformed: "display_step reviewed_groups 1 0 ''e x'' = Continue 0"
    using selection_validation [of reviewed_groups 1 0 "''e x''" _ _ _ "[]"]
    by (simp add: parse_defs)
  from sel active removed_target out_of_range malformed show ?thesis by blast
qed

lemma ceil_div_int:
  fixes a b :: int
  assumes "0 < b"
  shows "(a + b - 1) div b = - ((- a) div b)"
proof (cases "a mod b = 0")
  case True
  have "a + b - 1 = b * (a div b) + (b - 1)"
    using True by (simp add: algebra_simps) (metis True add.right_neutral mult_div_mod_eq)
  then have "(a + b - 1) div b = a div b"
    using assms by (intro int_div_pos_eq [where r = "b - 1"]) simp_all
  moreover have "(- a) div b = - (a div b)"
    using True assms by (simp add: zdiv_zminus1_eq_if)
  ultimately show ?thesis by simp
next
  case False
  from assms have "0 \<le> a mod b" and "a mod b < b"
    by simp_all
  with False have r: "0 < a mod b" "a mod b < b"
    by simp_all
  have "a + b - 1 = b * (a div b + 1) + (a mod b - 1)"
    by (simp add: algebra_simps)
  then have "(a + b - 1) div b = a div b + 1"
    using r by (intro int_div_pos_eq [where r = "a mod b - 1"]) simp_all
  moreover have "(- a) div b = - (a div b) - 1"
    using False assms by (simp add: zdiv_zminus1_eq_if)
  ultimately show ?thesis by simp
qed

lemma total_pages_ceiling:
  assumes "0 < page_size"
  shows "(int n + page_size - 1) div page_size = \<lceil>real n / real_of_int page_size\<rceil>"
proof -
  have "\<lceil>real n / real_of_int page_size\<rceil> = \<lceil>real_of_int (int n) / real_of_int page_size\<rceil>"
    by simp
  also have "\<dots> = - ((- int n) div page_size)"
    by (rule ceiling_divide_eq_div)
  also have "\<dots> = (int n + page_size - 1) div page_size"
    using ceil_div_int [OF assms, of "int n"] by simp
  finally show ?thesis by simp
qed

lemma display_outliers_active:
  assumes "\<exists>g\<in>set outliers. \<not> removed g" and "0 < page_size"
  shows "display_outliers outliers page_size start_page cs =
     display_loop outliers ((int (length outliers) + page_size - 1) div page_size)
       (max 0 (min start_page ((int (length outliers) + page_size - 1) div page_size - 1))) cs"
    and "0 < (int (length outliers) + page_size - 1) div page_size"
proof -
  from assms(1) have ne: "filter (\<lambda>g. \<not> removed g) outliers \<noteq> []"
    by (simp add: filter_empty_conv)
  from assms(1) have "outliers \<noteq> []" by auto
  then have "0 < length outliers" by simp
  then have "0 < real (length outliers) / real_of_int page_size"
    using assms(2) by simp
  then have "0 < \<lceil>real (length outliers) / real_of_int page_size\<rceil>"
    by (simp add: ceiling_less_iff)
  then show pos: "0 < (int (length outliers) + page_size - 1) div page_size"
    by (simp add: total_pages_ceiling [OF assms(2)])
  from ne assms(2) pos show "display_outliers outliers page_size start_page cs =
     display_loop outliers ((int (length outliers) + page_size - 1) div page_size)
       (max 0 (min start_page ((int (length outliers) + page_size - 1) div page_size - 1))) cs"
    by (simp add: display_outliers_def Let_def)
qed

text \<open>
  Claim C8, as the code has it. The commands of the prompt
  \<^verbatim>\<open>[n]ext, [p]rev, [e]dit #, [d]elete #, [q]uit\<close> are the replies \<open>n\<close>, \<open>p\<close>, \<open>e\<close> and \<open>d\<close>
  followed by a number, and \<open>q\<close>; the words are not commands. On a page within range,
  \<open>n\<close> goes to the page after, but not beyond \<open>total_pages - 1\<close>; \<open>p\<close> goes to the page
  before, but not below 0; \<open>q\<close> leaves the loop; every reply that is none of these and does
  not start with \<open>e\<close> or \<open>d\<close> changes nothing, and the page stays within range. The number
  of pages is \<open>ceiling (group_count / page_size)\<close>, and browsing starts on the start page
  clamped to the range.
\<close>

theorem browsing_commands:
  assumes "0 \<le> page" and "page < total_pages"
  shows "display_step outliers total_pages page ''n'' = Continue (min (page + 1) (total_pages - 1))
     \<and> display_step outliers total_pages page ''p'' = Continue (max (page - 1) 0)
     \<and> display_step outliers total_pages page ''q'' = Quit
     \<and> (choice \<noteq> ''n'' \<and> choice \<noteq> ''p'' \<and> choice \<noteq> ''q'' \<and>
          (choice = [] \<or> (hd choice \<noteq> CHR ''e'' \<and> hd choice \<noteq> CHR ''d'')) \<longrightarrow>
          display_step outliers total_pages page choice = Continue page)
     \<and> (\<forall>page'. display_step outliers total_pages page choice = Continue page' \<longrightarrow>
          0 \<le> page' \<and> page' < total_pages)
     \<and> (0 < page_size \<longrightarrow>
          (int (length outliers) + page_size - 1) div page_size =
            \<lceil>real (length outliers) / real_of_int page_size\<rceil>)
     \<and> ((\<exists>g\<in>set outliers. \<not> removed g) \<and> 0 < page_size \<longrightarrow>
          display_outliers outliers page_size start_page cs =
            display_loop outliers \<lceil>real (length outliers) / real_of_int page_size\<rceil>
              (max 0 (min start_page (\<lceil>real (length outliers) / real_of_int page_size\<rceil> - 1))) cs)"
proof (intro conjI impI allI)
  show "display_step outliers total_pages page ''n'' = Continue (min (page + 1) (total_pages - 1))"
    using assms by (simp add: display_step_def)
  show "display_step outliers total_pages page ''p'' = Continue (max (page - 1) 0)"
    using assms by (simp add: display_step_def)
  show "display_step outliers total_pages page ''q'' = Quit"
    by (simp add: display_step_def)
  show "display_step outliers total_pages page choice = Continue page"
    if "choice \<noteq> ''n'' \<and> choice \<noteq> ''p'' \<and> choice \<noteq> ''q'' \<and>
          (choice = [] \<or> (hd choice \<noteq> CHR ''e'' \<and> hd choice \<noteq> CHR ''d''))"
    using that by (auto simp add: display_step_def)
  show "0 \<le> page'" "page' < total_pages"
    if "display_step outliers total_pages page choice = Continue page'" for page'
    using that assms by (auto simp add: display_step_def split: if_splits option.splits)
  show "(int (length outliers) + page_size - 1) div page_size =
            \<lceil>real (length outliers) / real_of_int page_size\<rceil>" if "0 < page_size"
    using that by (rule total_pages_ceiling)
  show "display_outliers outliers page_size start_page cs =
            display_loop outliers \<lceil>real (length outliers) / real_of_int page_size\<rceil>
              (max 0 (min start_page (\<lceil>real (length outliers) / real_of_int page_size\<rceil> - 1))) cs"
    if "(\<exists>g\<in>set outliers. \<not> removed g) \<and> 0 < page_size"
    using that display_outliers_active(1) [of outliers page_size start_page cs]
    by (simp add: total_pages_ceiling)
qed

theorem browsing_commands_witness:
  "display_step example_groups 3 0 ''n'' = Continue 1
   \<and> display_step example_groups 3 2 ''n'' = Continue 2
   \<and> display_step example_groups 3 2 ''p'' = Continue 1
   \<and> display_step example_groups 3 0 ''p'' = Continue 0
   \<and> display_step example_groups 3 1 ''q'' = Quit
   \<and> display_step example_groups 3 1 ''x'' = Continue 1
   \<and> (int (length example_groups) + 1 - 1) div 1 = 2
   \<and> display_outliers example_groups 1 7 [''p'', ''q''] = display_loop example_groups 2 1 [''p'', ''q'']"
proof -
  have len: "length example_groups = 2" by (simp add: example_groups_def)
  have act: "\<exists>g\<in>set example_groups. \<not> removed g" by (simp add: example_groups_def)
  from browsing_commands [of 0 3 example_groups "''x''" 1 7 "[''p'', ''q'']"] len act
  have a: "display_step example_groups 3 0 ''n'' = Continue 1"
    "display_step example_groups 3 0 ''p'' = Continue 0"
    "(int (length example_groups) + 1 - 1) div 1 = 2"
    "display_outliers example_groups 1 7 [''p'', ''q''] = display_loop example_groups 2 1 [''p'', ''q'']"
    by simp_all
  from browsing_commands [of 2 3 example_groups "''x''" 1 7 "[]"]
  have b: "display_step example_groups 3 2 ''n'' = Continue 2"
    "display_step example_groups 3 2 ''p'' = Continue 1"
    by simp_all
  from browsing_commands [of 1 3 example_groups "''x''" 1 7 "[]"]
  have c: "display_step example_groups 3 1 ''q'' = Quit"
    "display_step example_groups 3 1 ''x'' = Continue 1"
    by simp_all
  from a b c show ?thesis by blast
qed

text \<open>
  Claim C8 as stated fails on the commands it names. With two groups and one group a page
  there are two pages. On page 0 the reply \<open>next\<close> leaves the page at 0 where \<open>n\<close> goes to
  page 1; on page 1 \<open>prev\<close> leaves the page at 1 where \<open>p\<close> goes to page 0; \<open>quit\<close> does not
  leave the loop where \<open>q\<close> does; \<open>edit 2\<close> and \<open>delete 2\<close> select nothing where \<open>e2\<close> and
  \<open>d 2\<close> select the second group. A session that is given the four words reads them all
  and asks again, until the input ends.
\<close>

theorem browsing_commands_counterexample:
  "(int (length example_groups) + 1 - 1) div 1 = 2
   \<and> display_step example_groups 2 0 ''next'' = Continue 0
   \<and> display_step example_groups 2 0 ''n'' = Continue 1
   \<and> display_step example_groups 2 1 ''prev'' = Continue 1
   \<and> display_step example_groups 2 1 ''p'' = Continue 0
   \<and> display_step example_groups 2 0 ''quit'' = Continue 0
   \<and> display_step example_groups 2 0 ''q'' = Quit
   \<and> display_step example_groups 2 0 ''edit 2'' = Continue 0
   \<and> display_step example_groups 2 0 ''e2'' = Selected CHR ''e'' 1 (example_groups ! 1)
   \<and> display_step example_groups 2 0 ''delete 2'' = Continue 0
   \<and> display_step example_groups 2 0 ''d 2'' = Selected CHR ''d'' 1 (example_groups ! 1)
   \<and> display_outliers example_groups 1 0 [''next'', ''edit 2'', ''delete 2'', ''quit''] = Inl EOFError"
  by (simp add: display_outliers_def display_step_def parse_defs example_defs)

text \<open>
  The words of the prompt are not commands on any page, whatever the groups: only the
  letters are read, and the number of a selection follows its letter.
\<close>

lemma command_words_not_read:
  "display_step outliers total_pages page ''next'' = Continue page
   \<and> display_step outliers total_pages page ''prev'' = Continue page
   \<and> display_step outliers total_pages page ''quit'' = Continue page
   \<and> display_step outliers total_pages page ''edit 2'' = Continue page
   \<and> display_step outliers total_pages page ''delete 2'' = Continue page"
  by (simp add: display_step_def parse_defs)

lemma display_outliers_none_active:
  assumes "\<forall>g\<in>set outliers. removed g"
  shows "display_outliers outliers page_size start_page cs = Inr (None, cs)"
proof -
  from assms have "filter (\<lambda>g. \<not> removed g) outliers = []"
    by (simp add: filter_empty_conv)
  then show ?thesis by (simp add: display_outliers_def)
qed

text \<open>
  Claim C9. If every group of the list is removed, or the list is empty,
  \<^verbatim>\<open>display_outliers\<close> returns \<^verbatim>\<open>None\<close> without reading a reply, and the session loop ends
  at once, in the state it is in, with no \<open>q\<close> from the operator.
\<close>

theorem no_active_groups:
  assumes "\<forall>g\<in>set (all_outliers s). removed g"
  shows "display_outliers (all_outliers s) page_size start_page cs = Inr (None, cs)
     \<and> main_loop s = Inr s"
proof -
  have "main_loop s = Inr s"
    by (subst main_loop.simps) (simp add: display_outliers_none_active [OF assms])
  with display_outliers_none_active [OF assms] show ?thesis by simp
qed

theorem no_active_groups_witness:
  "display_outliers [(example_groups ! 0)\<lparr>removed := True\<rparr>] PAGE_SIZE 0 [] = Inr (None, [])
   \<and> main_loop (example_session [(example_groups ! 0)\<lparr>removed := True\<rparr>] [] [''n'']) =
       Inr (example_session [(example_groups ! 0)\<lparr>removed := True\<rparr>] [] [''n''])
   \<and> main_loop (example_session [] [] []) = Inr (example_session [] [] [])"
proof -
  have 1: "\<forall>g\<in>set (all_outliers (example_session [(example_groups ! 0)\<lparr>removed := True\<rparr>] [] [''n''])). removed g"
    by (simp add: example_session_def)
  have 2: "\<forall>g\<in>set (all_outliers (example_session [] [] [])). removed g"
    by (simp add: example_session_def)
  from no_active_groups [OF 1, of PAGE_SIZE 0 "[]"] no_active_groups [OF 2, of PAGE_SIZE 0 "[]"]
  show ?thesis by (simp add: example_session_def)
qed

section \<open>Mutations and the session loop: properties\<close>

lemma next_outcome_tables:
  "committed (snd (next_outcome c)) = committed c" "pending (snd (next_outcome c)) = pending c"
  by (simp_all add: next_outcome_def split: list.splits)

lemma db_cursor_tables:
  assumes "db_cursor c = (r, c')"
  shows "committed c' = committed c" "pending c' = pending c"
  using assms next_outcome_tables [of c] by (auto simp add: db_cursor_def)

lemma db_execute_tables:
  assumes "db_execute stmt c = (r, c')"
  shows "committed c' = committed c" "r \<noteq> None \<Longrightarrow> pending c' = pending c"
  using assms next_outcome_tables [of c]
  by (auto simp add: db_execute_def split: prod.splits option.splits)

lemma db_commit_tables:
  assumes "db_commit c = (r, c')"
  shows "r = None \<Longrightarrow> committed c' = pending c \<and> pending c' = pending c"
    "r \<noteq> None \<Longrightarrow> committed c' = committed c \<and> pending c' = pending c"
  using assms next_outcome_tables [of c]
  by (auto simp add: db_commit_def split: prod.splits option.splits)

lemma db_rollback_tables:
  assumes "db_rollback c = (r, c')"
  shows "committed c' = committed c" "r = None \<Longrightarrow> pending c' = committed c"
  using assms next_outcome_tables [of c]
  by (auto simp add: db_rollback_def split: prod.splits option.splits)

lemma db_connect_tables:
  assumes "db_connect c = (r, c')"
  shows "committed c' = committed c" "r = None \<Longrightarrow> pending c' = committed c"
  using assms next_outcome_tables [of c]
  by (auto simp add: db_connect_def split: prod.splits option.splits)

lemma rollback_return_False_settled:
  assumes "committed c = table"
  shows "settled table (rollback_return_False c)" "fst (rollback_return_False c) \<noteq> Inr True"
proof -
  obtain r c' where rb: "db_rollback c = (r, c')" by (cases "db_rollback c")
  from db_rollback_tables [OF rb] assms rb
  show "settled table (rollback_return_False c)" "fst (rollback_return_False c) \<noteq> Inr True"
    by (auto simp add: settled_def rollback_return_False_def split: option.splits)
qed

lemma edit_transaction_settled:
  assumes "pending c = committed c"
  shows "settled (committed c) (edit_transaction c member_ids v)"
proof -
  obtain r0 c0 where cur: "db_cursor c = (r0, c0)" by (cases "db_cursor c")
  note t0 = db_cursor_tables [OF cur]
  show ?thesis
  proof (cases r0)
    case (Some e)
    with cur t0 assms show ?thesis by (simp add: edit_transaction_def settled_def)
  next
    case None
    obtain r1 c1 where ex: "db_execute (update_state v member_ids) c0 = (r1, c1)"
      by (cases "db_execute (update_state v member_ids) c0")
    note t1 = db_execute_tables [OF ex]
    show ?thesis
    proof (cases r1)
      case (Some e)
      with cur None ex rollback_return_False_settled(1) [of c1 "committed c"] t0 t1
      show ?thesis by (simp add: edit_transaction_def)
    next
      case no1: None
      obtain r2 c2 where cm: "db_commit c1 = (r2, c2)" by (cases "db_commit c1")
      note t2 = db_commit_tables [OF cm]
      show ?thesis
      proof (cases r2)
        case (Some e)
        with cur None ex no1 cm rollback_return_False_settled(1) [of c2 "committed c"] t0 t1 t2
        show ?thesis by (simp add: edit_transaction_def)
      next
        case no2: None
        with cur None ex no1 cm t2 show ?thesis
          by (simp add: edit_transaction_def settled_def)
      qed
    qed
  qed
qed

lemma delete_transaction_settled:
  assumes "pending c = committed c"
  shows "settled (committed c) (delete_transaction c member_ids)"
proof -
  obtain r0 c0 where cur: "db_cursor c = (r0, c0)" by (cases "db_cursor c")
  note t0 = db_cursor_tables [OF cur]
  show ?thesis
  proof (cases r0)
    case (Some e)
    with cur t0 assms show ?thesis by (simp add: delete_transaction_def settled_def)
  next
    case None
    obtain r1 c1 where ex: "db_execute (clear_old_state member_ids) c0 = (r1, c1)"
      by (cases "db_execute (clear_old_state member_ids) c0")
    note t1 = db_execute_tables [OF ex]
    show ?thesis
    proof (cases r1)
      case (Some e)
      with cur None ex rollback_return_False_settled(1) [of c1 "committed c"] t0 t1
      show ?thesis by (simp add: delete_transaction_def)
    next
      case no1: None
      obtain r2 c2 where ex2: "db_execute (delete_states member_ids) c1 = (r2, c2)"
        by (cases "db_execute (delete_states member_ids) c1")
      note t2 = db_execute_tables [OF ex2]
      show ?thesis
      proof (cases r2)
        case (Some e)
        with cur None ex no1 ex2 rollback_return_False_settled(1) [of c2 "committed c"] t0 t1 t2
        show ?thesis by (simp add: delete_transaction_def)
      next
        case no2: None
        obtain r3 c3 where cm: "db_commit c2 = (r3, c3)" by (cases "db_commit c2")
        note t3 = db_commit_tables [OF cm]
        show ?thesis
        proof (cases r3)
          case (Some e)
          with cur None ex no1 ex2 no2 cm rollback_return_False_settled(1) [of c3 "committed c"] t0 t1 t2 t3
          show ?thesis by (simp add: delete_transaction_def)
        next
          case no3: None
          with cur None ex no1 ex2 no2 cm t3 show ?thesis
            by (simp add: delete_transaction_def settled_def)
        qed
      qed
    qed
  qed
qed

lemma mutate_settled:
  assumes "pending c = committed c" and "mutate a c g op = (r, c', op')"
  shows "settled (committed c) (r, c')"
proof -
  have untouched: "settled (committed c) (Inr False, c)" "settled (committed c) (Inl EOFError, c)"
    using assms(1) by (simp_all add: settled_def)
  have e: "settled (committed c) (fst (edit_outlier c g op), fst (snd (edit_outlier c g op)))"
    using untouched edit_transaction_settled [OF assms(1)]
    by (simp add: edit_outlier_def Let_def case_prod_beta split: list.splits edit_reply.splits)
  have d: "settled (committed c) (fst (delete_outlier c g op), fst (snd (delete_outlier c g op)))"
    using untouched delete_transaction_settled [OF assms(1)]
    by (simp add: delete_outlier_def Let_def case_prod_beta split: list.splits)
  from assms(2) e d untouched show ?thesis
    by (auto simp add: mutate_def split: if_splits)
qed


lemma main_body_Inr:
  assumes "main_body s (a, i, g) = Inr s'" and "mutate a (conn s) g (operator s) = (r, c, op)"
  shows "(r = Inr True \<and> i < length (all_outliers s) \<and>
            s' = s\<lparr>current_page := int i div PAGE_SIZE,
                   all_outliers := (all_outliers s)[i := (all_outliers s ! i)\<lparr>removed := True\<rparr>],
                   conn := c, operator := op\<rparr>)
       \<or> (r = Inr False \<and> s' = s\<lparr>current_page := int i div PAGE_SIZE, conn := c, operator := op\<rparr>)
       \<or> (r = Inl (MysqlError OperationalError) \<and>
            (\<exists>c'. db_connect c = (None, c') \<and>
               s' = s\<lparr>current_page := int i div PAGE_SIZE, conn := c', operator := op\<rparr>))"
proof (cases r)
  case (Inr b)
  with assms show ?thesis
    by (cases b) (auto simp add: main_body_def Let_def split: if_splits)
next
  case (Inl e)
  show ?thesis
  proof (cases "e = MysqlError OperationalError")
    case True
    obtain r' c' where "db_connect c = (r', c')" by (cases "db_connect c")
    with assms Inl True show ?thesis
      by (cases r') (auto simp add: main_body_def Let_def)
  next
    case False
    with assms Inl have "main_body s (a, i, g) = Inl e"
      by (auto simp add: main_body_def Let_def split: py_error.splits mysql_error.splits)
    with assms(1) show ?thesis by simp
  qed
qed

lemma main_body_returns:
  assumes "mutate a (conn s) g (operator s) = (r, c, op)"
  shows "(\<exists>s'. main_body s (a, i, g) = Inr s') \<longleftrightarrow>
     (r = Inr True \<and> i < length (all_outliers s)) \<or> r = Inr False \<or>
     (r = Inl (MysqlError OperationalError) \<and> fst (db_connect c) = None)"
proof
  assume "\<exists>s'. main_body s (a, i, g) = Inr s'"
  then obtain s' where "main_body s (a, i, g) = Inr s'" ..
  from main_body_Inr [OF this assms] show
    "(r = Inr True \<and> i < length (all_outliers s)) \<or> r = Inr False \<or>
     (r = Inl (MysqlError OperationalError) \<and> fst (db_connect c) = None)"
    by auto
next
  assume h: "(r = Inr True \<and> i < length (all_outliers s)) \<or> r = Inr False \<or>
     (r = Inl (MysqlError OperationalError) \<and> fst (db_connect c) = None)"
  obtain r' c' where dc: "db_connect c = (r', c')" by (cases "db_connect c")
  from h show "\<exists>s'. main_body s (a, i, g) = Inr s'"
  proof (elim disjE conjE)
    assume "r = Inr True" "i < length (all_outliers s)"
    with assms show ?thesis by (simp add: main_body_def Let_def)
  next
    assume "r = Inr False"
    with assms show ?thesis by (simp add: main_body_def Let_def)
  next
    assume "r = Inl (MysqlError OperationalError)" "fst (db_connect c) = None"
    with assms dc show ?thesis by (simp add: main_body_def Let_def)
  qed
qed

lemma edit_transaction_result:
  "fst (edit_transaction c member_ids v) =
     (case call_outcome c 0 of
        Some e \<Rightarrow> Inl (MysqlError e)
      | None \<Rightarrow>
          (case call_outcome c 1 of
             Some e \<Rightarrow> after_rollback (call_outcome c 2)
           | None \<Rightarrow>
               (case call_outcome c 2 of
                  Some e \<Rightarrow> after_rollback (call_outcome c 3)
                | None \<Rightarrow> Inr True)))"
  by (auto simp add: edit_transaction_def rollback_return_False_def db_cursor_def db_execute_def
      db_commit_def db_rollback_def next_outcome_def call_outcome_def after_rollback_def
      split: list.splits option.splits)

lemma delete_transaction_result:
  "fst (delete_transaction c member_ids) =
     (case call_outcome c 0 of
        Some e \<Rightarrow> Inl (MysqlError e)
      | None \<Rightarrow>
          (case call_outcome c 1 of
             Some e \<Rightarrow> after_rollback (call_outcome c 2)
           | None \<Rightarrow>
               (case call_outcome c 2 of
                  Some e \<Rightarrow> after_rollback (call_outcome c 3)
                | None \<Rightarrow>
                   (case call_outcome c 3 of
                      Some e \<Rightarrow> after_rollback (call_outcome c 4)
                    | None \<Rightarrow> Inr True))))"
  by (auto simp add: delete_transaction_def rollback_return_False_def db_cursor_def db_execute_def
      db_commit_def db_rollback_def next_outcome_def call_outcome_def after_rollback_def
      split: list.splits option.splits)

lemma transaction_cursor_fails:
  assumes "call_outcome c 0 = Some e"
  shows "pending (snd (edit_transaction c member_ids v)) = pending c"
    "committed (snd (edit_transaction c member_ids v)) = committed c"
    "pending (snd (delete_transaction c member_ids)) = pending c"
    "committed (snd (delete_transaction c member_ids)) = committed c"
  using assms
  by (auto simp add: edit_transaction_def delete_transaction_def db_cursor_def next_outcome_def
      call_outcome_def split: list.splits option.splits)

lemma first_failure_calls:
  "first_failure c (Suc (Suc (Suc 0))) =
     (if call_outcome c 0 \<noteq> None then Some 0 else if call_outcome c (Suc 0) \<noteq> None then Some (Suc 0)
      else if call_outcome c (Suc (Suc 0)) \<noteq> None then Some (Suc (Suc 0)) else None)"
  "first_failure c (Suc (Suc (Suc (Suc 0)))) =
     (if call_outcome c 0 \<noteq> None then Some 0 else if call_outcome c (Suc 0) \<noteq> None then Some (Suc 0)
      else if call_outcome c (Suc (Suc 0)) \<noteq> None then Some (Suc (Suc 0))
      else if call_outcome c (Suc (Suc (Suc 0))) \<noteq> None then Some (Suc (Suc (Suc 0))) else None)"
  by (simp_all add: first_failure_def upt_rec)

lemma transaction_storage:
  assumes "(n = 3 \<and> r = fst (edit_transaction c member_ids v)) \<or> (n = 4 \<and> r = fst (delete_transaction c member_ids))"
  shows "r = Inr True \<longleftrightarrow> (\<forall>k<n. call_outcome c k = None)"
    and "call_outcome c 0 = Some e \<Longrightarrow> r = Inl (MysqlError e)"
    and "first_failure c n = Some (Suc k) \<Longrightarrow> r = after_rollback (call_outcome c (Suc (Suc k)))"
proof -
  from assms show "r = Inr True \<longleftrightarrow> (\<forall>k<n. call_outcome c k = None)"
    by (auto simp add: less_Suc_eq edit_transaction_result delete_transaction_result after_rollback_def
        eval_nat_numeral split: option.splits)
  from assms show "r = Inl (MysqlError e)" if "call_outcome c 0 = Some e"
    using that by (auto simp add: edit_transaction_result delete_transaction_result)
  from assms show "r = after_rollback (call_outcome c (Suc (Suc k)))" if "first_failure c n = Some (Suc k)"
    using that
    by (auto simp add: first_failure_calls edit_transaction_result delete_transaction_result
        eval_nat_numeral split: option.splits if_splits)
qed

lemma mutate_reaches:
  assumes "reaches_storage a op" and "mutate a c g op = (r, c', op')"
  shows "(\<exists>v. storage_calls a = 3 \<and> edit_transaction c (ids g) v = (r, c')) \<or>
         (storage_calls a = 4 \<and> delete_transaction c (ids g) = (r, c'))"
  using assms
  by (auto simp add: reaches_storage_def mutate_def edit_outlier_def delete_outlier_def storage_calls_def
      Let_def split: if_splits list.splits edit_reply.splits prod.splits)

lemma mutate_declined:
  assumes "\<not> reaches_storage a op" and "mutate a c g op = (r, c', op')"
  shows "r \<noteq> Inr True" "c' = c"
  using assms
  by (auto simp add: reaches_storage_def mutate_def edit_outlier_def delete_outlier_def
      Let_def split: if_splits list.splits edit_reply.splits prod.splits)

text \<open>
  Claim C7, as the code has it. Take a session with no open transaction and a selected
  group at index \<open>i\<close>. Nothing is committed unless the edit or delete returns \<^verbatim>\<open>True\<close>, and
  it returns \<^verbatim>\<open>True\<close> exactly when every storage call (the cursor, the statements, the
  commit) succeeds. When a statement or the commit fails, the handler rolls back: if the
  rollback succeeds the mutation returns \<^verbatim>\<open>False\<close> and nothing of the transaction is left
  open; if the rollback fails its exception leaves the mutation. When the cursor cannot be
  made, that exception leaves the mutation, with no transaction begun. The loop goes on
  exactly when the mutation returned \<^verbatim>\<open>True\<close> or \<^verbatim>\<open>False\<close>, or raised
  \<^verbatim>\<open>OperationalError\<close> and the reconnection succeeded; any other exception ends the
  session. Whenever the loop goes on, the flag \<open>removed\<close> of group \<open>i\<close> is set exactly when
  the mutation returned \<^verbatim>\<open>True\<close> (otherwise the list is unchanged, so the group can be
  selected again), the list keeps its length and every other group, and no transaction is
  open.
\<close>

theorem mutation_outcome:
  assumes "pending (conn s) = committed (conn s)"
    and "i < length (all_outliers s)"
    and "mutate a (conn s) g (operator s) = (r, c, op)"
  shows "(r \<noteq> Inr True \<longrightarrow> committed c = committed (conn s))
     \<and> (r = Inr False \<longrightarrow> pending c = committed c)
     \<and> (reaches_storage a (operator s) \<longrightarrow>
          (r = Inr True \<longleftrightarrow> (\<forall>k<storage_calls a. call_outcome (conn s) k = None)) \<and>
          (\<forall>e. call_outcome (conn s) 0 = Some e \<longrightarrow> r = Inl (MysqlError e) \<and> pending c = committed c) \<and>
          (\<forall>k. first_failure (conn s) (storage_calls a) = Some (Suc k) \<longrightarrow>
             (call_outcome (conn s) (Suc (Suc k)) = None \<longrightarrow> r = Inr False) \<and>
             (\<forall>e. call_outcome (conn s) (Suc (Suc k)) = Some e \<longrightarrow> r = Inl (MysqlError e))))
     \<and> (\<not> reaches_storage a (operator s) \<longrightarrow> r \<noteq> Inr True \<and> c = conn s)
     \<and> ((\<exists>s'. main_body s (a, i, g) = Inr s') \<longleftrightarrow>
          r = Inr True \<or> r = Inr False \<or>
          (r = Inl (MysqlError OperationalError) \<and> fst (db_connect c) = None))
     \<and> (\<forall>s'. main_body s (a, i, g) = Inr s' \<longrightarrow>
          length (all_outliers s') = length (all_outliers s) \<and>
          (\<forall>j<length (all_outliers s). j \<noteq> i \<longrightarrow> all_outliers s' ! j = all_outliers s ! j) \<and>
          (removed (all_outliers s' ! i) \<longleftrightarrow> removed (all_outliers s ! i) \<or> r = Inr True) \<and>
          (r = Inr True \<longrightarrow> all_outliers s' ! i = (all_outliers s ! i)\<lparr>removed := True\<rparr>) \<and>
          (r \<noteq> Inr True \<longrightarrow> all_outliers s' = all_outliers s \<and> committed (conn s') = committed (conn s)) \<and>
          pending (conn s') = committed (conn s'))"
proof -
  from mutate_settled [OF assms(1,3)] have st: "settled (committed (conn s)) (r, c)" .
  from st have c1: "r \<noteq> Inr True \<longrightarrow> committed c = committed (conn s)"
    by (simp add: settled_def)
  from st have c2: "r = Inr False \<longrightarrow> pending c = committed c"
    by (simp add: settled_def)
  have c3: "(r = Inr True \<longleftrightarrow> (\<forall>k<storage_calls a. call_outcome (conn s) k = None)) \<and>
          (\<forall>e. call_outcome (conn s) 0 = Some e \<longrightarrow> r = Inl (MysqlError e) \<and> pending c = committed c) \<and>
          (\<forall>k. first_failure (conn s) (storage_calls a) = Some (Suc k) \<longrightarrow>
             (call_outcome (conn s) (Suc (Suc k)) = None \<longrightarrow> r = Inr False) \<and>
             (\<forall>e. call_outcome (conn s) (Suc (Suc k)) = Some e \<longrightarrow> r = Inl (MysqlError e)))"
    if reach: "reaches_storage a (operator s)"
  proof -
    from mutate_reaches [OF reach assms(3)]
    have "\<exists>v. ((storage_calls a = 3 \<and> r = fst (edit_transaction (conn s) (ids g) v)) \<or>
        (storage_calls a = 4 \<and> r = fst (delete_transaction (conn s) (ids g)))) \<and>
        (c = snd (edit_transaction (conn s) (ids g) v) \<or> c = snd (delete_transaction (conn s) (ids g)))"
    proof (elim disjE exE conjE)
      fix v
      assume "storage_calls a = 3" "edit_transaction (conn s) (ids g) v = (r, c)"
      then show ?thesis by (intro exI [of _ v]) simp
    next
      assume "storage_calls a = 4" "delete_transaction (conn s) (ids g) = (r, c)"
      then show ?thesis by simp
    qed
    then obtain v where t: "(storage_calls a = 3 \<and> r = fst (edit_transaction (conn s) (ids g) v)) \<or>
        (storage_calls a = 4 \<and> r = fst (delete_transaction (conn s) (ids g)))"
      and c: "c = snd (edit_transaction (conn s) (ids g) v) \<or> c = snd (delete_transaction (conn s) (ids g))"
      by blast
    note ts = transaction_storage [OF t]
    have cursor: "pending c = committed c" if "call_outcome (conn s) 0 = Some e" for e
      using c transaction_cursor_fails [OF that] assms(1) by auto
    have rb: "(call_outcome (conn s) (Suc (Suc k)) = None \<longrightarrow> r = Inr False) \<and>
             (\<forall>e. call_outcome (conn s) (Suc (Suc k)) = Some e \<longrightarrow> r = Inl (MysqlError e))"
      if "first_failure (conn s) (storage_calls a) = Some (Suc k)" for k
      using ts(3) [OF that] by (simp add: after_rollback_def)
    from ts(1) ts(2) cursor rb show ?thesis by blast
  qed
  have c4: "r \<noteq> Inr True \<and> c = conn s" if "\<not> reaches_storage a (operator s)"
    using mutate_declined [OF that assms(3)] by simp
  have c5: "(\<exists>s'. main_body s (a, i, g) = Inr s') \<longleftrightarrow>
          r = Inr True \<or> r = Inr False \<or>
          (r = Inl (MysqlError OperationalError) \<and> fst (db_connect c) = None)"
    using main_body_returns [OF assms(3), of i] assms(2) by blast
  have c6: "length (all_outliers s') = length (all_outliers s) \<and>
          (\<forall>j<length (all_outliers s). j \<noteq> i \<longrightarrow> all_outliers s' ! j = all_outliers s ! j) \<and>
          (removed (all_outliers s' ! i) \<longleftrightarrow> removed (all_outliers s ! i) \<or> r = Inr True) \<and>
          (r = Inr True \<longrightarrow> all_outliers s' ! i = (all_outliers s ! i)\<lparr>removed := True\<rparr>) \<and>
          (r \<noteq> Inr True \<longrightarrow> all_outliers s' = all_outliers s \<and> committed (conn s') = committed (conn s)) \<and>
          pending (conn s') = committed (conn s')"
    if body: "main_body s (a, i, g) = Inr s'" for s'
  proof -
    from main_body_Inr [OF body assms(3)]
    consider (success) "r = Inr True"
        "s' = s\<lparr>current_page := int i div PAGE_SIZE,
                all_outliers := (all_outliers s)[i := (all_outliers s ! i)\<lparr>removed := True\<rparr>],
                conn := c, operator := op\<rparr>"
      | (failure) "r = Inr False" "s' = s\<lparr>current_page := int i div PAGE_SIZE, conn := c, operator := op\<rparr>"
      | (lost) c' where "r = Inl (MysqlError OperationalError)" "db_connect c = (None, c')"
          "s' = s\<lparr>current_page := int i div PAGE_SIZE, conn := c', operator := op\<rparr>"
      by blast
    then show ?thesis
    proof cases
      case success
      with st assms(2) show ?thesis by (simp add: settled_def)
    next
      case failure
      with st show ?thesis by (simp add: settled_def)
    next
      case lost
      from db_connect_tables [OF lost(2)] st lost(1)
      have "pending c' = committed c'" "committed c' = committed (conn s)"
        by (simp_all add: settled_def)
      with lost show ?thesis by simp
    qed
  qed
  from c1 c2 c3 c4 c5 c6 show ?thesis by blast
qed

lemma delete_succeeds:
  "main_body (example_session example_groups [] []) (CHR ''d'', 0, example_groups ! 0) =
     Inr \<lparr>all_outliers = [(example_groups ! 0)\<lparr>removed := True\<rparr>, example_groups ! 1],
          current_page = 0,
          conn = \<lparr>committed = [\<lparr>stored_id = 8, stored_state = 128 / 10, old_state_id = None\<rparr>,
                               \<lparr>stored_id = 10, stored_state = 20, old_state_id = None\<rparr>],
                  pending = [\<lparr>stored_id = 8, stored_state = 128 / 10, old_state_id = None\<rparr>,
                             \<lparr>stored_id = 10, stored_state = 20, old_state_id = None\<rparr>],
                  outcomes = []\<rparr>,
          operator = \<lparr>choices = [], edit_replies = [UseMean], confirmations = []\<rparr>\<rparr>"
  by (simp add: session_defs example_defs Let_def)

lemma edit_fails:
  "main_body (example_session example_groups [None, Some OtherDatabaseError] []) (CHR ''e'', 1, example_groups ! 1) =
     Inr \<lparr>all_outliers = example_groups,
          current_page = 0,
          conn = \<lparr>committed = example_table, pending = example_table, outcomes = []\<rparr>,
          operator = \<lparr>choices = [], edit_replies = [], confirmations = [True]\<rparr>\<rparr>"
  by (simp add: session_defs example_defs Let_def)

lemma connection_lost:
  "main_body (example_session example_groups [Some OperationalError] []) (CHR ''e'', 1, example_groups ! 1) =
     Inr \<lparr>all_outliers = example_groups,
          current_page = 0,
          conn = \<lparr>committed = example_table, pending = example_table, outcomes = []\<rparr>,
          operator = \<lparr>choices = [], edit_replies = [], confirmations = [True]\<rparr>\<rparr>"
  by (simp add: session_defs example_defs Let_def)

lemma edit_succeeds:
  "main_body (example_session example_groups [] []) (CHR ''e'', 1, example_groups ! 1) =
     Inr \<lparr>all_outliers = [example_groups ! 0, (example_groups ! 1)\<lparr>removed := True\<rparr>],
          current_page = 0,
          conn = \<lparr>committed = update_state 20 [8] example_table, pending = update_state 20 [8] example_table, outcomes = []\<rparr>,
          operator = \<lparr>choices = [], edit_replies = [], confirmations = [True]\<rparr>\<rparr>"
  by (simp add: session_defs example_defs Let_def)

lemma rollback_fails:
  "main_body (example_session example_groups [None, Some OtherDatabaseError, Some OtherDatabaseError] []) (CHR ''e'', 1, example_groups ! 1) =
     Inl (MysqlError OtherDatabaseError)"
  by (simp add: session_defs example_defs Let_def)

theorem mutation_outcome_witness:
  "mutate CHR ''e'' (conn (example_session example_groups [None, None, Some OtherDatabaseError] [])) (example_groups ! 1)
       (operator (example_session example_groups [None, None, Some OtherDatabaseError] [])) =
     (Inr False, \<lparr>committed = example_table, pending = example_table, outcomes = []\<rparr>,
      \<lparr>choices = [], edit_replies = [], confirmations = [True]\<rparr>)
   \<and> db_execute (update_state 20 [8])
        \<lparr>committed = example_table, pending = example_table, outcomes = [None, Some OtherDatabaseError]\<rparr> =
       (None, \<lparr>committed = example_table, pending = update_state 20 [8] example_table,
               outcomes = [Some OtherDatabaseError]\<rparr>)
   \<and> update_state 20 [8] example_table \<noteq> example_table
   \<and> reaches_storage CHR ''e'' (operator (example_session example_groups [None, None, Some OtherDatabaseError] []))
   \<and> first_failure (conn (example_session example_groups [None, None, Some OtherDatabaseError] []))
        (storage_calls CHR ''e'') = Some 2
   \<and> call_outcome (conn (example_session example_groups [None, None, Some OtherDatabaseError] [])) 3 = None
   \<and> main_body (example_session example_groups [None, None, Some OtherDatabaseError] []) (CHR ''e'', 1, example_groups ! 1) =
     Inr ((example_session example_groups [] [])
            \<lparr>current_page := 0, operator := \<lparr>choices = [], edit_replies = [], confirmations = [True]\<rparr>\<rparr>)
   \<and> \<not> removed (example_groups ! 1)
   \<and> mutate CHR ''d'' (conn (example_session example_groups [] [])) (example_groups ! 0)
       (operator (example_session example_groups [] [])) =
     (Inr True, \<lparr>committed = delete_states [7, 9] (clear_old_state [7, 9] example_table),
                 pending = delete_states [7, 9] (clear_old_state [7, 9] example_table),
                 outcomes = []\<rparr>,
      \<lparr>choices = [], edit_replies = [UseMean], confirmations = []\<rparr>)
   \<and> main_body (example_session example_groups [] []) (CHR ''d'', 0, example_groups ! 0) =
       Inr ((example_session reviewed_groups [] [])
            \<lparr>current_page := 0,
              conn := \<lparr>committed = delete_states [7, 9] (clear_old_state [7, 9] example_table),
                       pending = delete_states [7, 9] (clear_old_state [7, 9] example_table),
                       outcomes = []\<rparr>,
              operator := \<lparr>choices = [], edit_replies = [UseMean], confirmations = []\<rparr>\<rparr>)
   \<and> removed (reviewed_groups ! 0)"
proof -
  let ?s = "example_session example_groups [None, None, Some OtherDatabaseError] []"
  let ?c = "\<lparr>committed = example_table, pending = example_table, outcomes = []\<rparr>"
  let ?s' = "(example_session example_groups [] [])
            \<lparr>current_page := 0, operator := \<lparr>choices = [], edit_replies = [], confirmations = [True]\<rparr>\<rparr>"
  have failed: "mutate CHR ''e'' (conn ?s) (example_groups ! 1) (operator ?s) =
     (Inr False, ?c, \<lparr>choices = [], edit_replies = [], confirmations = [True]\<rparr>)"
    by (simp add: session_defs example_defs Let_def)
  have pending: "db_execute (update_state 20 [8])
        \<lparr>committed = example_table, pending = example_table, outcomes = [None, Some OtherDatabaseError]\<rparr> =
       (None, \<lparr>committed = example_table, pending = update_state 20 [8] example_table,
               outcomes = [Some OtherDatabaseError]\<rparr>)"
    by (simp add: db_execute_def next_outcome_def)
  have changed: "update_state 20 [8] example_table \<noteq> example_table"
    by (simp add: update_state_def example_table_def)
  have reach: "reaches_storage CHR ''e'' (operator ?s)"
    by (simp add: reaches_storage_def example_session_def)
  have first: "first_failure (conn ?s) (storage_calls CHR ''e'') = Some 2"
    by (simp add: first_failure_def storage_calls_def call_outcome_def example_session_def upt_rec)
  have rollback: "call_outcome (conn ?s) 3 = None"
    by (simp add: call_outcome_def example_session_def)
  have body: "main_body ?s (CHR ''e'', 1, example_groups ! 1) = Inr ?s'"
    by (simp add: session_defs example_defs Let_def)
  have i: "1 < length (all_outliers ?s)" by (simp add: example_defs)
  have clean: "pending (conn ?s) = committed (conn ?s)" by (simp add: example_session_def)
  note edit = mutation_outcome [OF clean i failed]
  from edit body
  have "removed (all_outliers ?s' ! 1) \<longleftrightarrow> removed (all_outliers ?s ! 1) \<or> (Inr False :: py_error + bool) = Inr True"
    by blast
  then have unset: "\<not> removed (example_groups ! 1)"
    by (simp add: example_defs)
  let ?t = "example_session example_groups [] []"
  let ?t' = "(example_session reviewed_groups [] [])
            \<lparr>current_page := 0,
              conn := \<lparr>committed = delete_states [7, 9] (clear_old_state [7, 9] example_table),
                       pending = delete_states [7, 9] (clear_old_state [7, 9] example_table),
                       outcomes = []\<rparr>,
              operator := \<lparr>choices = [], edit_replies = [UseMean], confirmations = []\<rparr>\<rparr>"
  have success: "mutate CHR ''d'' (conn ?t) (example_groups ! 0) (operator ?t) =
     (Inr True, \<lparr>committed = delete_states [7, 9] (clear_old_state [7, 9] example_table),
                 pending = delete_states [7, 9] (clear_old_state [7, 9] example_table),
                 outcomes = []\<rparr>,
      \<lparr>choices = [], edit_replies = [UseMean], confirmations = []\<rparr>)"
    by (simp add: session_defs example_defs Let_def)
  have body2: "main_body ?t (CHR ''d'', 0, example_groups ! 0) = Inr ?t'"
    by (simp add: session_defs example_defs Let_def)
  have i2: "0 < length (all_outliers ?t)" by (simp add: example_defs)
  have clean2: "pending (conn ?t) = committed (conn ?t)" by (simp add: example_session_def)
  from mutation_outcome [OF clean2 i2 success] body2
  have "removed (all_outliers ?t' ! 0) \<longleftrightarrow> removed (all_outliers ?t ! 0) \<or> (Inr True :: py_error + bool) = Inr True"
    by blast
  then have set: "removed (reviewed_groups ! 0)" by (simp add: example_session_def)
  from failed pending changed reach first rollback body unset success body2 set show ?thesis by blast
qed

text \<open>
  Claim C7 as stated fails where the failure leaves the mutation as an exception that
  \<^verbatim>\<open>main\<close> does not catch. The operator edits the second group (\<open>e2\<close>) and means to retry;
  the cursor and the statement succeed, the commit fails and the rollback fails too, with
  an error that is not \<^verbatim>\<open>OperationalError\<close>. The update is still pending on the connection
  (not rolled back), and the session ends with that error: the second \<open>e2\<close> is never read.
  The session ends in the same way when the cursor cannot be made.
\<close>

theorem mutation_outcome_counterexample:
  "mutate CHR ''e''
       (conn (example_session example_groups [None, None, Some OtherDatabaseError, Some OtherDatabaseError] [''e2'', ''q'']))
       (example_groups ! 1)
       (operator (example_session example_groups [None, None, Some OtherDatabaseError, Some OtherDatabaseError] [''e2'', ''q''])) =
     (Inl (MysqlError OtherDatabaseError),
      \<lparr>committed = example_table, pending = update_state 20 [8] example_table, outcomes = []\<rparr>,
      \<lparr>choices = [''e2'', ''q''], edit_replies = [], confirmations = [True]\<rparr>)
   \<and> update_state 20 [8] example_table \<noteq> example_table
   \<and> main_loop (example_session example_groups [None, None, Some OtherDatabaseError, Some OtherDatabaseError]
        [''e2'', ''e2'', ''q'']) = Inl (MysqlError OtherDatabaseError)
   \<and> main_loop (example_session example_groups [Some OtherDatabaseError] [''e2'', ''e2'', ''q'']) =
        Inl (MysqlError OtherDatabaseError)"
proof -
  have "mutate CHR ''e''
       (conn (example_session example_groups [None, None, Some OtherDatabaseError, Some OtherDatabaseError] [''e2'', ''q'']))
       (example_groups ! 1)
       (operator (example_session example_groups [None, None, Some OtherDatabaseError, Some OtherDatabaseError] [''e2'', ''q''])) =
     (Inl (MysqlError OtherDatabaseError),
      \<lparr>committed = example_table, pending = update_state 20 [8] example_table, outcomes = []\<rparr>,
      \<lparr>choices = [''e2'', ''q''], edit_replies = [], confirmations = [True]\<rparr>)"
    by (simp add: session_defs example_defs Let_def)
  moreover have "update_state 20 [8] example_table \<noteq> example_table"
    by (simp add: update_state_def example_table_def)
  moreover have "main_loop (example_session example_groups [None, None, Some OtherDatabaseError, Some OtherDatabaseError]
        [''e2'', ''e2'', ''q'']) = Inl (MysqlError OtherDatabaseError)"
    by (simp add: main_loop.simps display_outliers_def display_step_def parse_defs session_defs example_defs Let_def)
  moreover have "main_loop (example_session example_groups [Some OtherDatabaseError] [''e2'', ''e2'', ''q'']) =
        Inl (MysqlError OtherDatabaseError)"
    by (simp add: main_loop.simps display_outliers_def display_step_def parse_defs session_defs example_defs Let_def)
  ultimately show ?thesis by blast
qed

lemma page_of_index:
  assumes "i < n"
  shows "max 0 (min (int i div PAGE_SIZE) ((int n + PAGE_SIZE - 1) div PAGE_SIZE - 1)) = int i div PAGE_SIZE"
proof -
  have "(int n + PAGE_SIZE - 1) div PAGE_SIZE = (int n - 1) div PAGE_SIZE + 1"
    by (simp add: PAGE_SIZE_def)
  moreover have "int i div PAGE_SIZE \<le> (int n - 1) div PAGE_SIZE"
    using assms by (intro zdiv_mono1) (simp_all add: PAGE_SIZE_def)
  moreover have "0 \<le> int i div PAGE_SIZE"
    by (simp add: PAGE_SIZE_def)
  ultimately show ?thesis by simp
qed

lemma main_body_page:
  assumes "main_body s (a, i, g) = Inr s'"
  shows "current_page s' = int i div PAGE_SIZE" "length (all_outliers s') = length (all_outliers s)"
proof -
  obtain r c op where m: "mutate a (conn s) g (operator s) = (r, c, op)"
    by (cases "mutate a (conn s) g (operator s)")
  from main_body_Inr [OF assms m]
  show "current_page s' = int i div PAGE_SIZE" "length (all_outliers s') = length (all_outliers s)"
    by auto
qed

text \<open>
  Claim C10, as the code has it. A valid selection is accepted on whatever page is shown.
  A mutation attempt on the group at index \<open>i\<close> returns to the loop exactly when it
  succeeded, failed, or lost the connection and the reconnection succeeded; then the
  current page is \<open>i div PAGE_SIZE\<close>, and the session resumes browsing on that page if
  some group is still active. If no group is active any more, it does not browse again:
  \<^verbatim>\<open>display_outliers\<close> returns \<^verbatim>\<open>None\<close> and the session ends.
\<close>

theorem resume_page:
  "((a = CHR ''e'' \<or> a = CHR ''d'') \<and> py_int (py_strip r) = Some num \<and> 1 \<le> num \<and>
      num \<le> int (length outliers) \<and> \<not> removed (outliers ! nat (num - 1)) \<longrightarrow>
      display_step outliers total_pages page (a # r) = Selected a (nat (num - 1)) (outliers ! nat (num - 1)))
   \<and> (i < length (all_outliers s) \<longrightarrow>
        ((\<exists>s'. main_body s (a, i, g) = Inr s') \<longleftrightarrow>
           fst (mutate a (conn s) g (operator s)) = Inr True \<or>
           fst (mutate a (conn s) g (operator s)) = Inr False \<or>
           (fst (mutate a (conn s) g (operator s)) = Inl (MysqlError OperationalError) \<and>
            fst (db_connect (fst (snd (mutate a (conn s) g (operator s))))) = None)))
   \<and> (main_body s (a, i, g) = Inr s' \<and> i < length (all_outliers s) \<longrightarrow>
        current_page s' = int i div PAGE_SIZE \<and>
        ((\<exists>g\<in>set (all_outliers s'). \<not> removed g) \<longrightarrow>
           display_outliers (all_outliers s') PAGE_SIZE (current_page s') cs =
             display_loop (all_outliers s')
               ((int (length (all_outliers s')) + PAGE_SIZE - 1) div PAGE_SIZE)
               (int i div PAGE_SIZE) cs) \<and>
        ((\<forall>g\<in>set (all_outliers s'). removed g) \<longrightarrow>
           display_outliers (all_outliers s') PAGE_SIZE (current_page s') cs = Inr (None, cs)))"
proof (intro conjI impI)
  assume v: "(a = CHR ''e'' \<or> a = CHR ''d'') \<and> py_int (py_strip r) = Some num \<and> 1 \<le> num \<and>
      num \<le> int (length outliers) \<and> \<not> removed (outliers ! nat (num - 1))"
  then have "a # r \<noteq> []" "hd (a # r) \<in> set ''ed''" by auto
  from display_step_ed [OF this] v
  show "display_step outliers total_pages page (a # r) = Selected a (nat (num - 1)) (outliers ! nat (num - 1))"
    by simp
next
  assume i: "i < length (all_outliers s)"
  obtain r c op where m: "mutate a (conn s) g (operator s) = (r, c, op)"
    by (cases "mutate a (conn s) g (operator s)")
  from main_body_returns [OF m, of i] i m
  show "(\<exists>s'. main_body s (a, i, g) = Inr s') \<longleftrightarrow>
           fst (mutate a (conn s) g (operator s)) = Inr True \<or>
           fst (mutate a (conn s) g (operator s)) = Inr False \<or>
           (fst (mutate a (conn s) g (operator s)) = Inl (MysqlError OperationalError) \<and>
            fst (db_connect (fst (snd (mutate a (conn s) g (operator s))))) = None)"
    by simp
next
  assume b: "main_body s (a, i, g) = Inr s' \<and> i < length (all_outliers s)"
  then have body: "main_body s (a, i, g) = Inr s'" and i: "i < length (all_outliers s)" by simp_all
  note p = main_body_page [OF body]
  from p(1) show "current_page s' = int i div PAGE_SIZE" .
  show "display_outliers (all_outliers s') PAGE_SIZE (current_page s') cs =
             display_loop (all_outliers s')
               ((int (length (all_outliers s')) + PAGE_SIZE - 1) div PAGE_SIZE)
               (int i div PAGE_SIZE) cs"
    if act: "\<exists>g\<in>set (all_outliers s'). \<not> removed g"
  proof -
    have "0 < PAGE_SIZE" by (simp add: PAGE_SIZE_def)
    from display_outliers_active(1) [OF act this, of "current_page s'" cs]
    show ?thesis using page_of_index [of i "length (all_outliers s')"] i p by simp
  qed
  show "display_outliers (all_outliers s') PAGE_SIZE (current_page s') cs = Inr (None, cs)"
    if "\<forall>g\<in>set (all_outliers s'). removed g"
    using that by (rule display_outliers_none_active)
qed

theorem resume_page_witness:
  "display_step example_groups 1 0 ''d2'' = Selected CHR ''d'' 1 (example_groups ! 1)
   \<and> main_body (example_session example_groups [Some OperationalError] []) (CHR ''e'', 1, example_groups ! 1) =
       Inr ((example_session example_groups [] [])
            \<lparr>current_page := 0, operator := \<lparr>choices = [], edit_replies = [], confirmations = [True]\<rparr>\<rparr>)
   \<and> display_outliers example_groups PAGE_SIZE 0 [''q''] = display_loop example_groups 1 0 [''q'']"
proof -
  have sel: "display_step example_groups 1 0 ''d2'' = Selected CHR ''d'' 1 (example_groups ! 1)"
    using resume_page [where a = "CHR ''d''" and r = "''2''" and num = 2 and outliers = example_groups
        and total_pages = 1 and page = 0]
    by (simp add: parse_defs example_defs)
  let ?s = "example_session example_groups [Some OperationalError] []"
  let ?s' = "(example_session example_groups [] [])
            \<lparr>current_page := 0, operator := \<lparr>choices = [], edit_replies = [], confirmations = [True]\<rparr>\<rparr>"
  have body: "main_body ?s (CHR ''e'', 1, example_groups ! 1) = Inr ?s'"
    by (simp add: session_defs example_defs Let_def)
  have i: "1 < length (all_outliers ?s)" by (simp add: example_defs)
  have act: "\<exists>g\<in>set (all_outliers ?s'). \<not> removed g" by (simp add: example_defs)
  from resume_page [where s = ?s and a = "CHR ''e''" and i = 1 and g = "example_groups ! 1"
      and s' = ?s' and cs = "[''q'']"] body i act
  have "display_outliers (all_outliers ?s') PAGE_SIZE (current_page ?s') [''q''] =
          display_loop (all_outliers ?s') ((int (length (all_outliers ?s')) + PAGE_SIZE - 1) div PAGE_SIZE)
            (int 1 div PAGE_SIZE) [''q'']"
    by blast
  moreover have "all_outliers ?s' = example_groups" "current_page ?s' = 0"
    by (simp_all add: example_session_def)
  moreover have "(int (length example_groups) + PAGE_SIZE - 1) div PAGE_SIZE = 1" "int 1 div PAGE_SIZE = 0"
    by (simp_all add: example_groups_def PAGE_SIZE_def)
  ultimately have "display_outliers example_groups PAGE_SIZE 0 [''q''] = display_loop example_groups 1 0 [''q'']"
    by (simp only:)
  with sel body show ?thesis by blast
qed

text \<open>
  Claim C10 as stated fails where the attempt removes the last active group. Of two groups
  the first is removed already; the operator deletes the second (\<open>d2\<close>) and the delete
  succeeds. The session then ends with the replies \<open>n\<close> and \<open>q\<close> unread: it has not
  resumed browsing on page 0.
\<close>

theorem resume_page_counterexample:
  "main_loop (example_session reviewed_groups [] [''d2'', ''n'', ''q'']) =
     Inr ((example_session
             [(example_groups ! 0)\<lparr>removed := True\<rparr>, (example_groups ! 1)\<lparr>removed := True\<rparr>] [] [''n'', ''q''])
          \<lparr>current_page := 0,
            conn := \<lparr>committed = delete_states [8] (clear_old_state [8] example_table),
                     pending = delete_states [8] (clear_old_state [8] example_table),
                     outcomes = []\<rparr>,
            operator := \<lparr>choices = [''n'', ''q''], edit_replies = [UseMean], confirmations = []\<rparr>\<rparr>)"
  by (simp add: main_loop.simps display_outliers_def display_step_def parse_defs session_defs example_defs Let_def)


end
